theory Spec2Isabelle
  imports Main "HOL-Library.Word"
begin

unbundle bit_operations_syntax

section \<open>The interop server header: constants\<close>

text \<open>
  The development embeds \<^verbatim>\<open>src/tools/interopserver/InteropServer.h\<close>. The two object-like
  macros the embedded code uses are C \<^verbatim>\<open>int\<close> expressions.
\<close>

definition MAX_HTTP_REQUESTS_PER_CONNECTION :: int where
  "MAX_HTTP_REQUESTS_PER_CONNECTION = 100"

definition IO_SIZE :: int where
  "IO_SIZE = 64 * 1024"

section \<open>What the header takes from elsewhere\<close>

text \<open>
  The header includes \<^verbatim>\<open>msquichelper.h\<close>, which is not part of the embedded sources. The
  constants and the macro \<^verbatim>\<open>QUIC_FAILED\<close> that the code uses from there, and the two
  translation-time macros \<^verbatim>\<open>__FILE__\<close> and \<^verbatim>\<open>__LINE__\<close>, are parameters of the model,
  collected in one record. Handles (\<^verbatim>\<open>HQUIC\<close>), addresses of heap objects and
  \<^verbatim>\<open>QUIC_ADDR\<close> values are opaque numbers; a \<^verbatim>\<open>QUIC_STATUS\<close> is an integer whose
  meaning is given by \<^verbatim>\<open>QUIC_FAILED\<close> alone.

  An invocation of a function-like macro that spans several lines gets its \<^verbatim>\<open>__LINE__\<close>
  from the compiler (the first or the last line of the invocation): \<open>LINE_macro\<close> maps
  the first and the last line of an invocation to the number the compiler reports.
\<close>

type_synonym HQUIC = nat
type_synonym address = nat
type_synonym QUIC_ADDR = nat
type_synonym QUIC_STATUS = int

record msquic_h =
  QUIC_FAILED :: "QUIC_STATUS \<Rightarrow> bool"
  QUIC_STATUS_SUCCESS :: QUIC_STATUS
  QUIC_SEND_FLAG_NONE :: "32 word"
  QUIC_STREAM_OPEN_FLAG_UNIDIRECTIONAL :: "32 word"
  QUIC_STREAM_SHUTDOWN_FLAG_ABORT :: "32 word"
  QUIC_SEND_RESUMPTION_FLAG_FINAL :: "32 word"
  QUIC_PARAM_LEVEL_SESSION :: "32 word"
  QUIC_PARAM_SESSION_PEER_BIDI_STREAM_COUNT :: "32 word"
  QUIC_PARAM_SESSION_PEER_UNIDI_STREAM_COUNT :: "32 word"
  FILE_macro :: string
  LINE_macro :: "nat \<Rightarrow> nat \<Rightarrow> nat"

section \<open>HttpSendBuffer\<close>

text \<open>
  \<^verbatim>\<open>QuicBuffer.Length\<close> is a \<^verbatim>\<open>uint32_t\<close>; \<^verbatim>\<open>QuicBuffer.Buffer\<close> is set to
  \<^verbatim>\<open>RawBuffer\<close> by the constructor and no member function changes it, so the record keeps
  the array itself and the length. \<^verbatim>\<open>Flags\<close> is the enum \<^verbatim>\<open>QUIC_SEND_FLAGS\<close>. The array
  is not initialised by the constructor: its content at construction is a parameter.
\<close>

record HttpSendBuffer =
  Flags :: "32 word"
  Length :: "32 word"
  RawBuffer :: "8 word list"

definition HttpSendBuffer_new :: "msquic_h \<Rightarrow> 8 word list \<Rightarrow> HttpSendBuffer" where
  "HttpSendBuffer_new h raw =
     \<lparr>Flags = QUIC_SEND_FLAG_NONE h, Length = 0, RawBuffer = raw\<rparr>"

text \<open>
  \<^verbatim>\<open>IsFull\<close> compares the \<^verbatim>\<open>uint32_t\<close> length with the \<^verbatim>\<open>int\<close> constant: the constant
  is converted to \<^verbatim>\<open>unsigned int\<close>. \<^verbatim>\<open>HasRoom\<close> takes a \<^verbatim>\<open>uint64_t\<close>: the stored length
  is zero-extended, the sum is taken in 64 bits (and wraps there), and the constant is
  converted to \<^verbatim>\<open>uint64_t\<close>.
\<close>

definition IsFull :: "HttpSendBuffer \<Rightarrow> bool" where
  "IsFull b = (Length b = word_of_int IO_SIZE)"

definition HasRoom :: "HttpSendBuffer \<Rightarrow> 64 word \<Rightarrow> bool" where
  "HasRoom b Len = (Len + ucast (Length b) < word_of_int IO_SIZE)"

text \<open>
  \<^verbatim>\<open>memcpy\<close> into the array: \<open>n\<close> bytes of \<open>src\<close> are stored from offset \<open>off\<close> on.
  The C function has undefined behaviour when it reads past the end of its source or
  writes past the end of its destination; the model returns a fault there.
\<close>

datatype fault = ReadOutOfBounds | WriteOutOfBounds

definition memcpy :: "8 word list \<Rightarrow> nat \<Rightarrow> 8 word list \<Rightarrow> nat \<Rightarrow> fault + 8 word list" where
  "memcpy dst off src n =
     (if length src < n then Inl ReadOutOfBounds
      else if length dst < off + n then Inl WriteOutOfBounds
      else Inr (take off dst @ take n src @ drop (off + n) dst))"

definition Write :: "HttpSendBuffer \<Rightarrow> 8 word list \<Rightarrow> 32 word \<Rightarrow> fault + HttpSendBuffer" where
  "Write b Buffer Len =
     (case memcpy (RawBuffer b) (unat (Length b)) Buffer (unat Len) of
        Inl f \<Rightarrow> Inl f
      | Inr raw \<Rightarrow> Inr (b\<lparr>RawBuffer := raw, Length := Length b + Len\<rparr>))"

definition Reset :: "HttpSendBuffer \<Rightarrow> HttpSendBuffer" where
  "Reset b = b\<lparr>Length := 0\<rparr>"

text \<open>
  The states a buffer reaches when it is built by the constructor over an array of
  \<^verbatim>\<open>IO_SIZE\<close> bytes and then used with the discipline that every \<^verbatim>\<open>Write\<close> of \<open>n\<close> bytes
  is preceded by a successful \<^verbatim>\<open>HasRoom(n)\<close>.
\<close>

inductive guarded_reachable :: "HttpSendBuffer \<Rightarrow> bool" where
  constructed: "length raw = nat IO_SIZE \<Longrightarrow> guarded_reachable (HttpSendBuffer_new h raw)"
| after_Reset: "guarded_reachable b \<Longrightarrow> guarded_reachable (Reset b)"
| after_Write: "guarded_reachable b \<Longrightarrow> HasRoom b (ucast n) \<Longrightarrow> Write b data n = Inr b'
                \<Longrightarrow> guarded_reachable b'"

section \<open>Calls into the transport\<close>

text \<open>
  \<^verbatim>\<open>MsQuic\<close> is a table of function pointers into the transport. The model records each
  call made through it, with its arguments, in the order made. A pointer argument is
  the address it holds (\<open>None\<close> for \<^verbatim>\<open>nullptr\<close>) or, for a pointer to a local variable, the
  value stored there; a callback argument is the name of the function passed.
\<close>

datatype callback =
    HttpConnection_QuicCallbackHandler
  | HttpServer_QuicCallbackHandler

datatype api_call =
    SetCallbackHandler HQUIC callback address
  | ConnectionClose HQUIC
  | ConnectionSendResumptionTicket HQUIC "32 word" "16 word" "address option"
  | StreamShutdown HQUIC "32 word" "64 word"
  | SessionOpen HQUIC "8 word list list" "32 word" "address option"
  | SetParam HQUIC "32 word" "32 word" "32 word" "16 word"
  | ListenerOpen HQUIC callback address
  | ListenerStart HQUIC QUIC_ADDR

text \<open>
  What the transport answers is not decided by this header: a \<open>transport\<close> gives, for
  the calls made so far and the call being made, the status returned and the handle
  stored through the call's output parameter (read only after \<^verbatim>\<open>SessionOpen\<close> and
  \<^verbatim>\<open>ListenerOpen\<close>).
\<close>

type_synonym transport = "api_call list \<Rightarrow> api_call \<Rightarrow> QUIC_STATUS \<times> HQUIC"

section \<open>HttpRequest\<close>

datatype HttpRequestErrorCodes =
    HttpRequestNoError
  | HttpRequestNotGet
  | HttpRequestFoundDots
  | HttpRequestGetTooBig
  | HttpRequestSendFailed
  | HttpRequestRecvNoRoom
  | HttpRequestPeerAbort
  | HttpRequestExtraRecv

text \<open>
  The enumerators have no initialisers, so they count from zero. \<^verbatim>\<open>StreamShutdown\<close>
  takes the error code as a 64-bit unsigned integer.
\<close>

fun ErrorCode_value :: "HttpRequestErrorCodes \<Rightarrow> 64 word" where
  "ErrorCode_value HttpRequestNoError = 0"
| "ErrorCode_value HttpRequestNotGet = 1"
| "ErrorCode_value HttpRequestFoundDots = 2"
| "ErrorCode_value HttpRequestGetTooBig = 3"
| "ErrorCode_value HttpRequestSendFailed = 4"
| "ErrorCode_value HttpRequestRecvNoRoom = 5"
| "ErrorCode_value HttpRequestPeerAbort = 6"
| "ErrorCode_value HttpRequestExtraRecv = 7"

text \<open>
  The members of the struct, in its order. \<open>Connection\<close> is the address of the owning
  \<^verbatim>\<open>HttpConnection\<close>, \<open>File\<close> the \<^verbatim>\<open>FILE*\<close> (\<open>None\<close> for a null pointer).
\<close>

record HttpRequest =
  Connection :: address
  QuicStream :: HQUIC
  File :: "address option"
  Buffer :: HttpSendBuffer
  Shutdown :: bool
  WriteHttp11Header :: bool

section \<open>HttpConnection and the heap\<close>

text \<open>
  \<^verbatim>\<open>RefCount\<close> is a \<^verbatim>\<open>long\<close>, 32 or 64 bits wide with the platform: the width is the type
  parameter. \<^verbatim>\<open>InterlockedIncrement\<close> and \<^verbatim>\<open>InterlockedDecrement\<close> wrap around and
  return the new value.
\<close>

record (overloaded) ('w::len) HttpConnection =
  QuicConnection :: HQUIC
  RefCount :: "'w word"

text \<open>
  Connections and requests live on the heap (\<^verbatim>\<open>new\<close>, \<^verbatim>\<open>delete this\<close>). A connection is
  found by its address and is absent once deleted; requests are kept in the order of
  their creation, a request's address being its position. \<open>api_log\<close> is the record of
  the calls made into the transport. The struct of a request has no member for the
  directionality that the specification gives a Request as an attribute; the world
  keeps it beside the requests, by address (\<open>unidirectional\<close>), and only the request's
  constructor, modelled below, writes it.

  A request is the context of its stream's callbacks (the two static handlers the
  struct declares take it as \<^verbatim>\<open>Context\<close>), so while a call on the stream is in progress
  the transport can read the request and deliver events to it. \<open>seen_by_transport\<close>
  records, for each call made on a request's stream, the request as it is in memory at
  the moment of the call: a store that the member function makes before the call is in
  it, a store made after the call is not.
\<close>

record (overloaded) ('w::len) world =
  connections :: "address \<rightharpoonup> 'w HttpConnection"
  requests :: "HttpRequest list"
  unidirectional :: "address \<Rightarrow> bool"
  api_log :: "api_call list"
  seen_by_transport :: "(api_call \<times> HttpRequest) list"

definition MsQuic_call :: "api_call \<Rightarrow> 'w::len world \<Rightarrow> 'w world" where
  "MsQuic_call c w = w\<lparr>api_log := api_log w @ [c]\<rparr>"

text \<open>A call on the stream of the request at address \<open>this\<close>.\<close>

definition MsQuic_stream_call :: "address \<Rightarrow> api_call \<Rightarrow> 'w::len world \<Rightarrow> 'w world" where
  "MsQuic_stream_call this c w =
     (MsQuic_call c w)\<lparr>seen_by_transport := seen_by_transport w @ [(c, requests w ! this)]\<rparr>"

subsection \<open>The request's member functions\<close>

text \<open>
  Modelled from the spec: the constructor \<^verbatim>\<open>HttpRequest::HttpRequest\<close> is only declared in
  the header (its body is in a file that is not among the embedded sources). By the
  specification a new Request is bound to the stream and to the Connection that
  spawned it, records the directionality it was created for, starts with no open output
  resource, an empty send buffer, shutdown not initiated and no preamble emitted, and
  holds no counted reference to the Connection. \<open>raw\<close> is the content of the storage
  that \<^verbatim>\<open>new\<close> returned for the buffer's array.
\<close>

definition HttpRequest_new ::
  "msquic_h \<Rightarrow> 8 word list \<Rightarrow> address \<Rightarrow> HQUIC \<Rightarrow> bool \<Rightarrow> 'w::len world \<Rightarrow> 'w world" where
  "HttpRequest_new h raw connection stream Unidi w =
     w\<lparr>requests := requests w @
        [\<lparr>Connection = connection, QuicStream = stream, File = None,
          Buffer = HttpSendBuffer_new h raw, Shutdown = False,
          WriteHttp11Header = False\<rparr>],
       unidirectional := (unidirectional w)(length (requests w) := Unidi)\<rparr>"

text \<open>
  \<^verbatim>\<open>Abort\<close>, on the request at address \<open>this\<close>: the flag is stored, then the transport is
  called. A call on an address that holds no request has no defined behaviour (\<open>None\<close>).
\<close>

definition set_Shutdown :: "address \<Rightarrow> 'w::len world \<Rightarrow> 'w world" where
  "set_Shutdown this w =
     w\<lparr>requests := (requests w)[this := (requests w ! this)\<lparr>Shutdown := True\<rparr>]\<rparr>"

definition Abort ::
  "msquic_h \<Rightarrow> address \<Rightarrow> HttpRequestErrorCodes \<Rightarrow> 'w::len world \<Rightarrow> 'w world option" where
  "Abort h this ErrorCode w =
     (if this < length (requests w)
      then Some (MsQuic_stream_call this
                  (StreamShutdown (QuicStream (requests w ! this))
                     (QUIC_STREAM_SHUTDOWN_FLAG_ABORT h) (ErrorCode_value ErrorCode))
                  (set_Shutdown this w))
      else None)"

subsection \<open>The connection's member functions\<close>

text \<open>
  The constructor, for the object \<^verbatim>\<open>new\<close> placed at address \<open>this\<close>: the members are
  initialised, then the callback is registered with the object as its context.
\<close>

definition HttpConnection_new :: "address \<Rightarrow> HQUIC \<Rightarrow> 'w::len world \<Rightarrow> 'w world" where
  "HttpConnection_new this connection w =
     MsQuic_call (SetCallbackHandler connection HttpConnection_QuicCallbackHandler this)
       (w\<lparr>connections := (connections w)(this \<mapsto> \<lparr>QuicConnection = connection, RefCount = 1\<rparr>)\<rparr>)"

text \<open>\<^verbatim>\<open>delete this\<close>: the destructor closes the handle, then the storage is freed.\<close>

definition HttpConnection_delete :: "address \<Rightarrow> 'w::len world \<Rightarrow> 'w world option" where
  "HttpConnection_delete this w =
     (case connections w this of
        None \<Rightarrow> None
      | Some c \<Rightarrow>
          Some ((MsQuic_call (ConnectionClose (QuicConnection c)) w)
                  \<lparr>connections := (connections w)(this := None)\<rparr>))"

definition AddRef :: "address \<Rightarrow> 'w::len world \<Rightarrow> 'w world option" where
  "AddRef this w =
     (case connections w this of
        None \<Rightarrow> None
      | Some c \<Rightarrow> Some (w\<lparr>connections := (connections w)(this \<mapsto> c\<lparr>RefCount := RefCount c + 1\<rparr>)\<rparr>))"

definition Release :: "address \<Rightarrow> 'w::len world \<Rightarrow> 'w world option" where
  "Release this w =
     (case connections w this of
        None \<Rightarrow> None
      | Some c \<Rightarrow>
          (let c' = c\<lparr>RefCount := RefCount c - 1\<rparr>;
               w' = w\<lparr>connections := (connections w)(this \<mapsto> c')\<rparr>
           in if RefCount c' = 0 then HttpConnection_delete this w' else Some w'))"

text \<open>
  The connection's event is a tagged union; the handler switches on the tag and has no
  default case. The last constructor stands for every other event type. The handler
  reads \<^verbatim>\<open>pThis\<close> only in the cases that use it. \<open>raw\<close> is passed on to the constructor of
  the request.
\<close>

datatype QUIC_CONNECTION_EVENT =
    QUIC_CONNECTION_EVENT_CONNECTED
  | QUIC_CONNECTION_EVENT_PEER_STREAM_STARTED HQUIC "32 word"
  | QUIC_CONNECTION_EVENT_SHUTDOWN_COMPLETE
  | QUIC_CONNECTION_EVENT_other nat

fun QuicCallbackHandler ::
  "msquic_h \<Rightarrow> 8 word list \<Rightarrow> address \<Rightarrow> QUIC_CONNECTION_EVENT \<Rightarrow> 'w::len world
     \<Rightarrow> (QUIC_STATUS \<times> 'w world) option" where
  "QuicCallbackHandler h raw pThis QUIC_CONNECTION_EVENT_CONNECTED w =
     (case connections w pThis of
        None \<Rightarrow> None
      | Some c \<Rightarrow>
          Some (QUIC_STATUS_SUCCESS h,
                MsQuic_call
                  (ConnectionSendResumptionTicket (QuicConnection c)
                     (QUIC_SEND_RESUMPTION_FLAG_FINAL h) 0 None) w))"
| "QuicCallbackHandler h raw pThis (QUIC_CONNECTION_EVENT_PEER_STREAM_STARTED Stream StreamFlags) w =
     Some (QUIC_STATUS_SUCCESS h,
           HttpRequest_new h raw pThis Stream
             (StreamFlags AND QUIC_STREAM_OPEN_FLAG_UNIDIRECTIONAL h \<noteq> 0) w)"
| "QuicCallbackHandler h raw pThis QUIC_CONNECTION_EVENT_SHUTDOWN_COMPLETE w =
     map_option (Pair (QUIC_STATUS_SUCCESS h)) (Release pThis w)"
| "QuicCallbackHandler h raw pThis (QUIC_CONNECTION_EVENT_other t) w =
     Some (QUIC_STATUS_SUCCESS h, w)"

text \<open>A sequence of \<^verbatim>\<open>AddRef\<close> and \<^verbatim>\<open>Release\<close> calls on one connection, run in order.\<close>

datatype refcount_call = Call_AddRef | Call_Release

fun refcount_step :: "address \<Rightarrow> refcount_call \<Rightarrow> 'w::len world \<Rightarrow> 'w world option" where
  "refcount_step this Call_AddRef w = AddRef this w"
| "refcount_step this Call_Release w = Release this w"

fun refcount_run :: "address \<Rightarrow> refcount_call list \<Rightarrow> 'w::len world \<Rightarrow> 'w world option" where
  "refcount_run this [] w = Some w"
| "refcount_run this (c # cs) w =
     (case refcount_step this c w of None \<Rightarrow> None | Some w' \<Rightarrow> refcount_run this cs w')"

section \<open>Startup: HttpServer and HttpSession\<close>

text \<open>
  \<^verbatim>\<open>EXIT_ON_FAILURE(x)\<close> evaluates \<open>x\<close> once; when \<^verbatim>\<open>QUIC_FAILED\<close> holds of the status it
  prints \<^verbatim>\<open>"%s:%d %s failed!\n"\<close> with \<^verbatim>\<open>__FILE__\<close>, \<^verbatim>\<open>__LINE__\<close> and the text of \<open>x\<close>, and
  calls \<^verbatim>\<open>exit(1)\<close>. A \<open>diagnostic\<close> holds the three values printed; a \<open>process_exit\<close>
  is the end of the process, with what was printed and the status passed to
  \<^verbatim>\<open>exit\<close>. The macro's argument text is the invocation's argument with each run of
  white space replaced by one blank, as the \<^verbatim>\<open>#\<close> operator produces it; \<open>first_line\<close> and
  \<open>last_line\<close> are the lines of the header where the invocation begins and ends.
\<close>

record diagnostic =
  diag_file :: string
  diag_line :: nat
  diag_expr :: string

record process_exit =
  printed :: diagnostic
  exit_status :: int

definition EXIT_ON_FAILURE ::
  "msquic_h \<Rightarrow> nat \<Rightarrow> nat \<Rightarrow> string \<Rightarrow> QUIC_STATUS \<Rightarrow> process_exit + unit" where
  "EXIT_ON_FAILURE h first_line last_line x Status =
     (if QUIC_FAILED h Status
      then Inl \<lparr>printed = \<lparr>diag_file = FILE_macro h,
                            diag_line = LINE_macro h first_line last_line,
                            diag_expr = x\<rparr>,
                exit_status = 1\<rparr>
      else Inr ())"

text \<open>A call through the table: the transport answers, and the call is recorded.\<close>

definition transport_call ::
  "transport \<Rightarrow> api_call \<Rightarrow> api_call list \<Rightarrow> (QUIC_STATUS \<times> HQUIC) \<times> api_call list" where
  "transport_call T c log = (T log c, log @ [c])"

record HttpServer =
  QuicListener :: HQUIC

record HttpSession =
  Session :: HQUIC
  Server :: address

text \<open>
  The constructor of \<^verbatim>\<open>HttpServer\<close>, for the object at address \<open>this\<close>. It returns the
  object or the exit of the process, and the calls made.
\<close>

definition HttpServer_new ::
  "msquic_h \<Rightarrow> transport \<Rightarrow> address \<Rightarrow> HQUIC \<Rightarrow> QUIC_ADDR \<Rightarrow> api_call list
     \<Rightarrow> (process_exit + HttpServer) \<times> api_call list" where
  "HttpServer_new h T this Session' LocalAddress log =
     (let (r1, log1) =
            transport_call T (ListenerOpen Session' HttpServer_QuicCallbackHandler this) log
      in case EXIT_ON_FAILURE h 170 175
                ''MsQuic->ListenerOpen( Session, QuicCallbackHandler, this, &QuicListener)''
                (fst r1) of
           Inl e \<Rightarrow> (Inl e, log1)
         | Inr _ \<Rightarrow>
             (let QuicListener' = snd r1;
                  (r2, log2) = transport_call T (ListenerStart QuicListener' LocalAddress) log1
              in case EXIT_ON_FAILURE h 176 179
                        ''MsQuic->ListenerStart( QuicListener, LocalAddress)''
                        (fst r2) of
                   Inl e \<Rightarrow> (Inl e, log2)
                 | Inr _ \<Rightarrow> (Inr \<lparr>QuicListener = QuicListener'\<rparr>, log2)))"

text \<open>
  The constructor of \<^verbatim>\<open>HttpSession\<close>. The two stream counts are \<^verbatim>\<open>uint16_t\<close> locals,
  passed by address with their size. \<open>server\<close> is the address \<^verbatim>\<open>new\<close> gives the
  \<^verbatim>\<open>HttpServer\<close>; the result holds the session and the server object it owns.
\<close>

definition HttpSession_new ::
  "msquic_h \<Rightarrow> transport \<Rightarrow> address \<Rightarrow> HQUIC \<Rightarrow> 8 word list list \<Rightarrow> 32 word \<Rightarrow> QUIC_ADDR
     \<Rightarrow> api_call list \<Rightarrow> (process_exit + HttpSession \<times> HttpServer) \<times> api_call list" where
  "HttpSession_new h T server Registration AlpnBuffers AlpnBufferCount LocalAddress log =
     (let (r1, log1) =
            transport_call T (SessionOpen Registration AlpnBuffers AlpnBufferCount None) log
      in case EXIT_ON_FAILURE h 211 217
                ''MsQuic->SessionOpen( Registration, AlpnBuffers, AlpnBufferCount, nullptr, &Session)''
                (fst r1) of
           Inl e \<Rightarrow> (Inl e, log1)
         | Inr _ \<Rightarrow>
             (let Session' = snd r1;
                  PeerBidiStreamCount = (word_of_int MAX_HTTP_REQUESTS_PER_CONNECTION :: 16 word);
                  PeerUnidiStreamCount = (1 :: 16 word);
                  (r2, log2) =
                    transport_call T
                      (SetParam Session' (QUIC_PARAM_LEVEL_SESSION h)
                         (QUIC_PARAM_SESSION_PEER_BIDI_STREAM_COUNT h) 2 PeerBidiStreamCount) log1
              in case EXIT_ON_FAILURE h 222 228
                        ''MsQuic->SetParam( Session, QUIC_PARAM_LEVEL_SESSION, QUIC_PARAM_SESSION_PEER_BIDI_STREAM_COUNT, sizeof(PeerBidiStreamCount), &PeerBidiStreamCount)''
                        (fst r2) of
                   Inl e \<Rightarrow> (Inl e, log2)
                 | Inr _ \<Rightarrow>
                     (let (r3, log3) =
                            transport_call T
                              (SetParam Session' (QUIC_PARAM_LEVEL_SESSION h)
                                 (QUIC_PARAM_SESSION_PEER_UNIDI_STREAM_COUNT h) 2
                                 PeerUnidiStreamCount) log2
                      in case EXIT_ON_FAILURE h 229 235
                                ''MsQuic->SetParam( Session, QUIC_PARAM_LEVEL_SESSION, QUIC_PARAM_SESSION_PEER_UNIDI_STREAM_COUNT, sizeof(PeerUnidiStreamCount), &PeerUnidiStreamCount)''
                                (fst r3) of
                           Inl e \<Rightarrow> (Inl e, log3)
                         | Inr _ \<Rightarrow>
                             (case HttpServer_new h T server Session' LocalAddress log3 of
                                (Inl e, log4) \<Rightarrow> (Inl e, log4)
                              | (Inr srv, log4) \<Rightarrow>
                                  (Inr (\<lparr>Session = Session', Server = server\<rparr>, srv), log4)))))"

text \<open>
  For stating what startup does: the five calls of a startup in program order, each
  with the handles the transport returned to the earlier ones; the status the
  transport gives the \<open>k\<close>-th of them; and the diagnostic each invocation of
  \<^verbatim>\<open>EXIT_ON_FAILURE\<close> prints.
\<close>

definition startup_calls ::
  "msquic_h \<Rightarrow> transport \<Rightarrow> address \<Rightarrow> HQUIC \<Rightarrow> 8 word list list \<Rightarrow> 32 word \<Rightarrow> QUIC_ADDR
     \<Rightarrow> api_call list \<Rightarrow> api_call list" where
  "startup_calls h T server Registration AlpnBuffers AlpnBufferCount LocalAddress log =
     (let c1 = SessionOpen Registration AlpnBuffers AlpnBufferCount None;
          s = snd (T log c1);
          c2 = SetParam s (QUIC_PARAM_LEVEL_SESSION h)
                 (QUIC_PARAM_SESSION_PEER_BIDI_STREAM_COUNT h) 2 100;
          c3 = SetParam s (QUIC_PARAM_LEVEL_SESSION h)
                 (QUIC_PARAM_SESSION_PEER_UNIDI_STREAM_COUNT h) 2 1;
          c4 = ListenerOpen s HttpServer_QuicCallbackHandler server;
          l = snd (T (log @ [c1, c2, c3]) c4);
          c5 = ListenerStart l LocalAddress
      in [c1, c2, c3, c4, c5])"

definition status_of :: "transport \<Rightarrow> api_call list \<Rightarrow> api_call list \<Rightarrow> nat \<Rightarrow> QUIC_STATUS" where
  "status_of T log cs k = fst (T (log @ take k cs) (cs ! k))"

definition startup_diagnostics :: "msquic_h \<Rightarrow> diagnostic list" where
  "startup_diagnostics h =
     [\<lparr>diag_file = FILE_macro h, diag_line = LINE_macro h 211 217,
       diag_expr = ''MsQuic->SessionOpen( Registration, AlpnBuffers, AlpnBufferCount, nullptr, &Session)''\<rparr>,
      \<lparr>diag_file = FILE_macro h, diag_line = LINE_macro h 222 228,
       diag_expr = ''MsQuic->SetParam( Session, QUIC_PARAM_LEVEL_SESSION, QUIC_PARAM_SESSION_PEER_BIDI_STREAM_COUNT, sizeof(PeerBidiStreamCount), &PeerBidiStreamCount)''\<rparr>,
      \<lparr>diag_file = FILE_macro h, diag_line = LINE_macro h 229 235,
       diag_expr = ''MsQuic->SetParam( Session, QUIC_PARAM_LEVEL_SESSION, QUIC_PARAM_SESSION_PEER_UNIDI_STREAM_COUNT, sizeof(PeerUnidiStreamCount), &PeerUnidiStreamCount)''\<rparr>,
      \<lparr>diag_file = FILE_macro h, diag_line = LINE_macro h 170 175,
       diag_expr = ''MsQuic->ListenerOpen( Session, QuicCallbackHandler, this, &QuicListener)''\<rparr>,
      \<lparr>diag_file = FILE_macro h, diag_line = LINE_macro h 176 179,
       diag_expr = ''MsQuic->ListenerStart( QuicListener, LocalAddress)''\<rparr>]"


fun is_StreamShutdown :: "api_call \<Rightarrow> bool" where
  "is_StreamShutdown (StreamShutdown s f e) = True"
| "is_StreamShutdown c = False"

text \<open>
  An instance of the parameters, for running the model on concrete inputs: a status is
  a failure when it is negative, and the constants are given sample values.
\<close>

definition sample_h :: msquic_h where
  "sample_h =
     \<lparr>QUIC_FAILED = (\<lambda>s. s < 0), QUIC_STATUS_SUCCESS = 0, QUIC_SEND_FLAG_NONE = 0,
      QUIC_STREAM_OPEN_FLAG_UNIDIRECTIONAL = 1, QUIC_STREAM_SHUTDOWN_FLAG_ABORT = 6,
      QUIC_SEND_RESUMPTION_FLAG_FINAL = 1, QUIC_PARAM_LEVEL_SESSION = 2,
      QUIC_PARAM_SESSION_PEER_BIDI_STREAM_COUNT = 1,
      QUIC_PARAM_SESSION_PEER_UNIDI_STREAM_COUNT = 2,
      FILE_macro = ''InteropServer.h'', LINE_macro = (\<lambda>first_line last_line. first_line)\<rparr>"

text \<open>A world with one request, on stream 7, and nothing else: for running the model.\<close>

definition one_request_world :: "32 world" where
  "one_request_world =
     \<lparr>connections = Map.empty,
      requests = [\<lparr>Connection = 0, QuicStream = 7, File = None,
                   Buffer = HttpSendBuffer_new sample_h (replicate 65536 0),
                   Shutdown = False, WriteHttp11Header = False\<rparr>],
      unidirectional = (\<lambda>a. False), api_log = [], seen_by_transport = []\<rparr>"

text \<open>
  A world with nothing in it, and the world after one connection has been constructed
  at address 5 for the handle 9 (reference counts 32 bits wide).
\<close>

definition empty_world :: "32 world" where
  "empty_world =
     \<lparr>connections = Map.empty, requests = [], unidirectional = (\<lambda>a. False), api_log = [],
      seen_by_transport = []\<rparr>"

definition one_connection_world :: "32 world" where
  "one_connection_world = HttpConnection_new 5 9 empty_world"


definition failing_transport :: "nat \<Rightarrow> transport" where
  "failing_transport k log c = (if length log = k then - 1 else 0, 11 + length log)"

section \<open>Facts about the send buffer\<close>

lemma IO_SIZE_value: "IO_SIZE = 65536"
  by (simp add: IO_SIZE_def)

lemma uint_ucast_32_64: "uint (ucast (w :: 32 word) :: 64 word) = uint w"
proof -
  have "uint w < 2 ^ 32" using unsigned_less [of w] by simp
  then have "uint w < 2 ^ 64" by simp
  then show ?thesis by (simp add: unsigned_ucast_eq take_bit_int_eq_self)
qed

lemma HasRoom_uint:
  "HasRoom b n \<longleftrightarrow> (uint (Length b) + uint n) mod 2 ^ 64 < IO_SIZE"
proof -
  have "uint (word_of_int IO_SIZE :: 64 word) = IO_SIZE"
    by (simp add: IO_SIZE_def)
  then show ?thesis
    by (simp add: HasRoom_def word_less_def uint_word_ariths uint_ucast_32_64 add.commute)
qed

lemma HasRoom_no_wrap:
  assumes "uint (Length b) + uint n < 2 ^ 64"
  shows "HasRoom b n \<longleftrightarrow> uint (Length b) + uint n < IO_SIZE"
proof -
  have "0 \<le> uint (Length b) + uint n" by simp
  with assms have "(uint (Length b) + uint n) mod 2 ^ 64 = uint (Length b) + uint n"
    by simp
  then show ?thesis by (simp add: HasRoom_uint)
qed

lemma HasRoom_of_uint32:
  fixes n :: "32 word"
  shows "HasRoom b (ucast n) \<longleftrightarrow> uint (Length b) + uint n < IO_SIZE"
proof -
  have "uint n < 2 ^ 32" and "uint (Length b) < 2 ^ 32"
    using unsigned_less [of n] unsigned_less [of "Length b"] by simp_all
  then have "uint (Length b) + uint (ucast n :: 64 word) < 2 ^ 64"
    by (simp add: uint_ucast_32_64)
  then show ?thesis
    using HasRoom_no_wrap [of b "ucast n"] by (simp add: uint_ucast_32_64)
qed

lemma uint_Length_add:
  fixes l n :: "32 word"
  assumes "uint l + uint n < IO_SIZE"
  shows "uint (l + n) = uint l + uint n"
proof -
  have "uint l + uint n < 2 ^ 32" using assms by (simp add: IO_SIZE_value)
  moreover have "0 \<le> uint l + uint n" by simp
  ultimately show ?thesis by (simp add: uint_word_ariths)
qed

lemma Write_Inr_Length:
  "Write b data n = Inr b' \<Longrightarrow> Length b' = Length b + n"
  by (auto simp: Write_def split: sum.splits)

lemma Write_Inr_raw_length:
  "Write b data n = Inr b' \<Longrightarrow> length (RawBuffer b') = length (RawBuffer b)"
  by (auto simp: Write_def memcpy_def split: sum.splits if_splits)

lemma Write_guarded_Length:
  assumes "HasRoom b (ucast n)" and "Write b data n = Inr b'"
  shows "uint (Length b') = uint (Length b) + uint n" and "uint (Length b') < IO_SIZE"
proof -
  from assms(1) have lt: "uint (Length b) + uint n < IO_SIZE"
    by (simp add: HasRoom_of_uint32)
  from assms(2) have "Length b' = Length b + n" by (rule Write_Inr_Length)
  with lt show "uint (Length b') = uint (Length b) + uint n"
    by (simp add: uint_Length_add)
  with lt show "uint (Length b') < IO_SIZE" by simp
qed

lemma guarded_reachable_invariant:
  "guarded_reachable b \<Longrightarrow> uint (Length b) < IO_SIZE \<and> length (RawBuffer b) = nat IO_SIZE"
proof (induction rule: guarded_reachable.induct)
  case (constructed raw h)
  then show ?case by (simp add: HttpSendBuffer_new_def IO_SIZE_value)
next
  case (after_Reset b)
  then show ?case by (simp add: Reset_def IO_SIZE_value)
next
  case (after_Write b n data b')
  from after_Write.hyps(2,3) have "uint (Length b') < IO_SIZE"
    by (rule Write_guarded_Length(2))
  moreover from after_Write.hyps(3) after_Write.IH
  have "length (RawBuffer b') = nat IO_SIZE"
    by (simp add: Write_Inr_raw_length)
  ultimately show ?case by simp
qed

lemma memcpy_written:
  assumes "n \<le> length src" and "off + n \<le> length dst" and "i < n"
  shows "(take off dst @ take n src @ drop (off + n) dst) ! (off + i) = src ! i"
  using assms by (simp add: nth_append)

lemma memcpy_kept:
  assumes "n \<le> length src" and "off + n \<le> length dst" and "i < length dst"
    and "i < off \<or> off + n \<le> i"
  shows "(take off dst @ take n src @ drop (off + n) dst) ! i = dst ! i"
  using assms by (auto simp: nth_append)

lemma uint_sum_unat:
  fixes a b :: "32 word"
  shows "uint a + uint b = int (unat a + unat b)"
  by simp

lemma uint_sum_le_iff:
  fixes a b :: "32 word"
  shows "uint a + uint b \<le> IO_SIZE \<longleftrightarrow> unat a + unat b \<le> nat IO_SIZE"
  unfolding uint_sum_unat IO_SIZE_value by linarith

lemma Write_in_bounds:
  assumes raw: "length (RawBuffer b) = nat IO_SIZE" and src: "unat n \<le> length data"
    and room: "uint (Length b) + uint n \<le> IO_SIZE"
  shows "Write b data n =
           Inr (b\<lparr>RawBuffer := take (unat (Length b)) (RawBuffer b) @ take (unat n) data @
                               drop (unat (Length b) + unat n) (RawBuffer b),
                  Length := Length b + n\<rparr>)"
proof -
  have "unat (Length b) + unat n \<le> length (RawBuffer b)"
    using room raw by (simp only: uint_sum_le_iff)
  with src show ?thesis by (simp add: Write_def memcpy_def)
qed

lemma Write_out_of_bounds:
  assumes raw: "length (RawBuffer b) = nat IO_SIZE" and src: "unat n \<le> length data"
    and over: "IO_SIZE < uint (Length b) + uint n"
  shows "Write b data n = Inl WriteOutOfBounds"
proof -
  have "\<not> unat (Length b) + unat n \<le> length (RawBuffer b)"
    using over raw by (simp only: uint_sum_le_iff [symmetric])
  with src show ?thesis by (simp add: Write_def memcpy_def)
qed

section \<open>The send buffer: length invariant, room test and write\<close>

text \<open>
  Claim C3. The length of the send buffer never exceeds the capacity of 65536 bytes:
  the constructor and \<^verbatim>\<open>Reset\<close> set it to 0; a \<^verbatim>\<open>Write\<close> of \<open>n\<close> bytes made when
  \<^verbatim>\<open>HasRoom(n)\<close> holds adds exactly \<open>n\<close> and leaves the length below the capacity; so
  every state reached from the constructor by \<^verbatim>\<open>Reset\<close> and guarded \<^verbatim>\<open>Write\<close> has a
  length within the capacity. (\<^verbatim>\<open>IsFull\<close> and \<^verbatim>\<open>HasRoom\<close> are \<^verbatim>\<open>const\<close>: they return a
  value and leave the buffer as it is.)
\<close>

theorem Send_Buffer_length_invariant:
  "Length (HttpSendBuffer_new h raw) = 0 \<and>
   Length (Reset b) = 0 \<and>
   (HasRoom b (ucast n) \<and> Write b data n = Inr b' \<longrightarrow>
      uint (Length b') = uint (Length b) + uint n \<and> uint (Length b') < 65536) \<and>
   (guarded_reachable b \<longrightarrow> uint (Length b) \<le> 65536)"
proof (intro conjI impI)
  show "Length (HttpSendBuffer_new h raw) = 0" by (simp add: HttpSendBuffer_new_def)
  show "Length (Reset b) = 0" by (simp add: Reset_def)
next
  assume a: "HasRoom b (ucast n) \<and> Write b data n = Inr b'"
  then have r: "HasRoom b (ucast n)" and w: "Write b data n = Inr b'" by simp_all
  from Write_guarded_Length(1) [OF r w]
  show "uint (Length b') = uint (Length b) + uint n" .
  from Write_guarded_Length(2) [OF r w]
  show "uint (Length b') < 65536" by (simp add: IO_SIZE_value)
next
  assume "guarded_reachable b"
  then have "uint (Length b) < IO_SIZE" by (simp add: guarded_reachable_invariant)
  then show "uint (Length b) \<le> 65536" by (simp add: IO_SIZE_value)
qed

theorem Send_Buffer_length_invariant_witness:
  "HasRoom (HttpSendBuffer_new sample_h (replicate 65536 0)) (ucast (3 :: 32 word)) \<and>
   Write (HttpSendBuffer_new sample_h (replicate 65536 0)) [71, 69, 84] 3 =
     Inr \<lparr>Flags = 0, Length = 3, RawBuffer = [71, 69, 84] @ replicate 65533 0\<rparr> \<and>
   guarded_reachable \<lparr>Flags = 0, Length = 3, RawBuffer = [71, 69, 84] @ replicate 65533 0\<rparr> \<and>
   uint (Length \<lparr>Flags = 0, Length = 3, RawBuffer = [71, 69, 84] @ replicate 65533 0\<rparr>) < 65536 \<and>
   uint (Length \<lparr>Flags = 0, Length = 3, RawBuffer = [71, 69, 84] @ replicate 65533 0\<rparr>) \<le> 65536"
proof -
  let ?b0 = "HttpSendBuffer_new sample_h (replicate 65536 0)"
  let ?b3 = "\<lparr>Flags = 0, Length = 3, RawBuffer = [71, 69, 84] @ replicate 65533 0\<rparr>"
  have room: "HasRoom ?b0 (ucast (3 :: 32 word))"
    by (simp add: HasRoom_def HttpSendBuffer_new_def IO_SIZE_def)
  have w: "Write ?b0 [71, 69, 84] 3 = Inr ?b3"
    by (simp add: Write_def memcpy_def HttpSendBuffer_new_def sample_h_def)
  have "guarded_reachable ?b0"
    by (rule guarded_reachable.constructed) (simp add: IO_SIZE_def)
  then have reach: "guarded_reachable ?b3"
    using room w by (rule guarded_reachable.after_Write)
  from Send_Buffer_length_invariant [of sample_h "[]" ?b0 3 "[71, 69, 84]" ?b3] room w
  have "uint (Length ?b3) < 65536" by blast
  moreover from Send_Buffer_length_invariant [of sample_h "[]" ?b3 0 "[]" ?b3] reach
  have "uint (Length ?b3) \<le> 65536" by blast
  ultimately show ?thesis using room w reach by blast
qed

text \<open>
  Claim C4 says that the room test compares the exact sum with the capacity. It does
  not, at a 64-bit size that makes the sum wrap: after one byte has been written, a
  request for \<open>2\<^sup>6\<^sup>4 - 1\<close> bytes is answered with true, while the length plus the
  requested size, as integers, is \<open>2\<^sup>6\<^sup>4\<close> and not below 65536.
\<close>

theorem HasRoom_exact_counterexample:
  "Write (HttpSendBuffer_new sample_h (replicate 65536 0)) [71] 1 =
     Inr \<lparr>Flags = 0, Length = 1, RawBuffer = 71 # replicate 65535 0\<rparr> \<and>
   HasRoom \<lparr>Flags = 0, Length = 1, RawBuffer = 71 # replicate 65535 0\<rparr> 18446744073709551615 \<and>
   \<not> uint (Length \<lparr>Flags = 0, Length = 1, RawBuffer = 71 # replicate 65535 0\<rparr>) +
       uint (18446744073709551615 :: 64 word) < 65536"
  by (simp add: Write_def memcpy_def HttpSendBuffer_new_def sample_h_def HasRoom_def IO_SIZE_def)

text \<open>
  Claim C4, as the code has it. \<^verbatim>\<open>HasRoom\<close> takes the sum in unsigned 64-bit arithmetic
  (\<open>HasRoom_uint\<close> above). For every buffer and every requested size \<open>n\<close> such that
  the length plus \<open>n\<close> is below \<open>2\<^sup>6\<^sup>4\<close>, which every \<open>n\<close> up to \<open>2\<^sup>6\<^sup>4 - 2\<^sup>3\<^sup>2\<close> is,
  \<^verbatim>\<open>HasRoom(n)\<close> is true exactly when the length plus \<open>n\<close> is below 65536.
\<close>

theorem HasRoom_without_wrap:
  assumes "uint (Length b) + uint n < 2 ^ 64"
  shows "HasRoom b n \<longleftrightarrow> uint (Length b) + uint n < 65536"
  using HasRoom_no_wrap [OF assms] by (simp add: IO_SIZE_value)

theorem HasRoom_without_wrap_witness:
  "uint (Length \<lparr>Flags = 0, Length = 65000, RawBuffer = replicate 65536 0\<rparr>) +
     uint (535 :: 64 word) < 2 ^ 64 \<and>
   HasRoom \<lparr>Flags = 0, Length = 65000, RawBuffer = replicate 65536 0\<rparr> 535 \<and>
   uint (Length \<lparr>Flags = 0, Length = 65000, RawBuffer = replicate 65536 0\<rparr>) +
     uint (536 :: 64 word) < 2 ^ 64 \<and>
   \<not> HasRoom \<lparr>Flags = 0, Length = 65000, RawBuffer = replicate 65536 0\<rparr> 536"
proof -
  let ?b = "\<lparr>Flags = 0, Length = 65000, RawBuffer = replicate 65536 0\<rparr>"
  have a: "uint (Length ?b) + uint (535 :: 64 word) < 2 ^ 64" by simp
  have b: "uint (Length ?b) + uint (536 :: 64 word) < 2 ^ 64" by simp
  from HasRoom_without_wrap [OF a] have "HasRoom ?b 535" by simp
  moreover from HasRoom_without_wrap [OF b] have "\<not> HasRoom ?b 536" by simp
  ultimately show ?thesis using a b by blast
qed

text \<open>
  Claim C10. For a buffer over its 65536-byte array and a source that holds the \<open>n\<close>
  bytes: when \<^verbatim>\<open>HasRoom(n)\<close> holds, \<^verbatim>\<open>Write\<close> stays inside the array, stores the \<open>n\<close> bytes
  at the old length, leaves every other byte of the array as it was, and the new length
  is the old one plus \<open>n\<close>, below 65536. \<^verbatim>\<open>Write\<close> checks nothing itself: when
  \<^verbatim>\<open>HasRoom(n)\<close> does not hold, it either writes past the end of the array or fills the
  array completely, so that the length is no longer below the capacity.
\<close>

theorem Write_within_RawBuffer:
  assumes raw: "length (RawBuffer b) = nat IO_SIZE" and src: "unat n \<le> length data"
  shows "(HasRoom b (ucast n) \<longrightarrow>
            (\<exists>b'. Write b data n = Inr b' \<and>
                  uint (Length b') = uint (Length b) + uint n \<and> uint (Length b') < 65536 \<and>
                  length (RawBuffer b') = 65536 \<and>
                  (\<forall>i < unat n. RawBuffer b' ! (unat (Length b) + i) = data ! i) \<and>
                  (\<forall>i < 65536. i < unat (Length b) \<or> unat (Length b) + unat n \<le> i
                      \<longrightarrow> RawBuffer b' ! i = RawBuffer b ! i))) \<and>
         (\<not> HasRoom b (ucast n) \<longrightarrow>
            Write b data n = Inl WriteOutOfBounds \<or>
            (\<exists>b'. Write b data n = Inr b' \<and> uint (Length b') = 65536))"
proof (intro conjI impI)
  assume room: "HasRoom b (ucast n)"
  then have lt: "uint (Length b) + uint n < IO_SIZE" by (simp add: HasRoom_of_uint32)
  define b' where "b' = b\<lparr>RawBuffer := take (unat (Length b)) (RawBuffer b) @ take (unat n) data @
                               drop (unat (Length b) + unat n) (RawBuffer b),
                          Length := Length b + n\<rparr>"
  have w: "Write b data n = Inr b'"
    unfolding b'_def using raw src lt by (intro Write_in_bounds) simp_all
  from lt have "uint (Length b) + uint n \<le> IO_SIZE" by simp
  then have fit: "unat (Length b) + unat n \<le> length (RawBuffer b)"
    using raw by (simp only: uint_sum_le_iff)
  have len: "uint (Length b') = uint (Length b) + uint n" "uint (Length b') < 65536"
    using Write_guarded_Length [OF room w] by (simp_all add: IO_SIZE_value)
  have rl: "length (RawBuffer b') = 65536"
    using Write_Inr_raw_length [OF w] raw by (simp add: IO_SIZE_value)
  have wr: "\<forall>i < unat n. RawBuffer b' ! (unat (Length b) + i) = data ! i"
    using memcpy_written [OF src fit] by (simp add: b'_def)
  have kp: "\<forall>i < 65536. i < unat (Length b) \<or> unat (Length b) + unat n \<le> i
                      \<longrightarrow> RawBuffer b' ! i = RawBuffer b ! i"
  proof (intro allI impI)
    fix i :: nat
    assume "i < 65536" and out: "i < unat (Length b) \<or> unat (Length b) + unat n \<le> i"
    then have "i < length (RawBuffer b)" using raw by (simp add: IO_SIZE_value)
    from memcpy_kept [OF src fit this out] show "RawBuffer b' ! i = RawBuffer b ! i"
      by (simp add: b'_def)
  qed
  from w len rl wr kp
  show "\<exists>b'. Write b data n = Inr b' \<and>
                  uint (Length b') = uint (Length b) + uint n \<and> uint (Length b') < 65536 \<and>
                  length (RawBuffer b') = 65536 \<and>
                  (\<forall>i < unat n. RawBuffer b' ! (unat (Length b) + i) = data ! i) \<and>
                  (\<forall>i < 65536. i < unat (Length b) \<or> unat (Length b) + unat n \<le> i
                      \<longrightarrow> RawBuffer b' ! i = RawBuffer b ! i)"
    by blast
next
  assume "\<not> HasRoom b (ucast n)"
  then have ge: "IO_SIZE \<le> uint (Length b) + uint n" by (simp add: HasRoom_of_uint32)
  show "Write b data n = Inl WriteOutOfBounds \<or>
            (\<exists>b'. Write b data n = Inr b' \<and> uint (Length b') = 65536)"
  proof (cases "uint (Length b) + uint n = IO_SIZE")
    case True
    then have w: "Write b data n = Inr (b\<lparr>RawBuffer := take (unat (Length b)) (RawBuffer b) @ take (unat n) data @
                               drop (unat (Length b) + unat n) (RawBuffer b),
                  Length := Length b + n\<rparr>)"
      using raw src by (intro Write_in_bounds) simp_all
    have "uint (Length b) + uint n < 2 ^ 32" using True by (simp add: IO_SIZE_value)
    moreover have "0 \<le> uint (Length b) + uint n" by simp
    ultimately have "uint (Length b + n) = uint (Length b) + uint n"
      by (simp add: uint_word_ariths)
    with True w show ?thesis by (simp add: IO_SIZE_value)
  next
    case False
    with ge have "IO_SIZE < uint (Length b) + uint n" by simp
    from Write_out_of_bounds [OF raw src this] show ?thesis by simp
  qed
qed

theorem Write_within_RawBuffer_witness:
  "length (RawBuffer (HttpSendBuffer_new sample_h (replicate 65536 0))) = nat IO_SIZE \<and>
   unat (2 :: 32 word) \<le> length [1, 2 :: 8 word] \<and>
   HasRoom (HttpSendBuffer_new sample_h (replicate 65536 0)) (ucast (2 :: 32 word)) \<and>
   (\<exists>b'. Write (HttpSendBuffer_new sample_h (replicate 65536 0)) [1, 2] 2 = Inr b' \<and>
         uint (Length b') = 2 \<and> length (RawBuffer b') = 65536 \<and>
         RawBuffer b' ! 0 = 1 \<and> RawBuffer b' ! 1 = 2 \<and> RawBuffer b' ! 2 = 0) \<and>
   length (RawBuffer \<lparr>Flags = 0, Length = 65535, RawBuffer = replicate 65536 0\<rparr>) = nat IO_SIZE \<and>
   \<not> HasRoom \<lparr>Flags = 0, Length = 65535, RawBuffer = replicate 65536 0\<rparr> (ucast (2 :: 32 word)) \<and>
   Write \<lparr>Flags = 0, Length = 65535, RawBuffer = replicate 65536 0\<rparr> [1, 2] 2 =
     Inl WriteOutOfBounds"
proof -
  let ?b0 = "HttpSendBuffer_new sample_h (replicate 65536 0)"
  let ?b1 = "\<lparr>Flags = 0, Length = 65535, RawBuffer = replicate 65536 0\<rparr>"
  have raw0: "length (RawBuffer ?b0) = nat IO_SIZE"
    by (simp add: HttpSendBuffer_new_def IO_SIZE_def)
  have raw1: "length (RawBuffer ?b1) = nat IO_SIZE"
    by (simp add: IO_SIZE_def)
  have src: "unat (2 :: 32 word) \<le> length [1, 2 :: 8 word]" by simp
  have room0: "HasRoom ?b0 (ucast (2 :: 32 word))"
    by (simp add: HasRoom_def HttpSendBuffer_new_def IO_SIZE_def)
  have room1: "\<not> HasRoom ?b1 (ucast (2 :: 32 word))"
    by (simp add: HasRoom_def IO_SIZE_def)
  have l0: "unat (Length ?b0) = 0" by (simp add: HttpSendBuffer_new_def)
  from Write_within_RawBuffer [OF raw0 src] room0
  obtain b' where w: "Write ?b0 [1, 2] 2 = Inr b'"
    and l: "uint (Length b') = uint (Length ?b0) + uint (2 :: 32 word)"
    and r: "length (RawBuffer b') = 65536"
    and d: "\<forall>i < unat (2 :: 32 word). RawBuffer b' ! (unat (Length ?b0) + i) = [1, 2] ! i"
    and k: "\<forall>i < 65536. i < unat (Length ?b0) \<or> unat (Length ?b0) + unat (2 :: 32 word) \<le> i
               \<longrightarrow> RawBuffer b' ! i = RawBuffer ?b0 ! i"
    by blast
  have l': "uint (Length b') = 2" using l by (simp add: HttpSendBuffer_new_def)
  from d [rule_format, of 0] have "RawBuffer b' ! (unat (Length ?b0) + 0) = [1, 2] ! 0"
    by simp
  moreover
  from d [rule_format, of 1] have "RawBuffer b' ! (unat (Length ?b0) + 1) = [1, 2] ! 1"
    by simp
  ultimately have d': "RawBuffer b' ! 0 = 1" "RawBuffer b' ! 1 = 2"
    unfolding l0 by simp_all
  from k [rule_format, of 2] have "RawBuffer b' ! 2 = RawBuffer ?b0 ! 2"
    unfolding l0 by simp
  then have k': "RawBuffer b' ! 2 = 0"
    by (simp add: HttpSendBuffer_new_def)
  have "Write ?b1 [1, 2] 2 = Inl WriteOutOfBounds \<or>
        (\<exists>b'. Write ?b1 [1, 2] 2 = Inr b' \<and> uint (Length b') = 65536)"
    using Write_within_RawBuffer [OF raw1 src] room1 by blast
  moreover have "Write ?b1 [1, 2] 2 \<noteq> Inr c" for c
    by (simp add: Write_def memcpy_def)
  ultimately have over: "Write ?b1 [1, 2] 2 = Inl WriteOutOfBounds" by blast
  from raw0 src room0 w l' r d' k' raw1 room1 over show ?thesis by blast
qed

section \<open>Abort\<close>

lemma set_Shutdown_simps:
  "api_log (set_Shutdown this w) = api_log w"
  "seen_by_transport (set_Shutdown this w) = seen_by_transport w"
  "connections (set_Shutdown this w) = connections w"
  "requests (set_Shutdown this w) = (requests w)[this := (requests w ! this)\<lparr>Shutdown := True\<rparr>]"
  "length (requests (set_Shutdown this w)) = length (requests w)"
  by (simp_all add: set_Shutdown_def)

lemma MsQuic_call_simps:
  "api_log (MsQuic_call c w) = api_log w @ [c]"
  "connections (MsQuic_call c w) = connections w"
  "requests (MsQuic_call c w) = requests w"
  by (simp_all add: MsQuic_call_def)

lemma MsQuic_stream_call_simps:
  "api_log (MsQuic_stream_call this c w) = api_log w @ [c]"
  "connections (MsQuic_stream_call this c w) = connections w"
  "requests (MsQuic_stream_call this c w) = requests w"
  "seen_by_transport (MsQuic_stream_call this c w) =
     seen_by_transport w @ [(c, requests w ! this)]"
  by (simp_all add: MsQuic_stream_call_def MsQuic_call_def)

lemma Abort_Some:
  assumes "this < length (requests w)"
  shows "Abort h this code w =
           Some (MsQuic_stream_call this
                   (StreamShutdown (QuicStream (requests w ! this))
                      (QUIC_STREAM_SHUTDOWN_FLAG_ABORT h) (ErrorCode_value code))
                   (set_Shutdown this w))"
  using assms by (simp add: Abort_def)

lemma HttpRequestErrorCodes_all:
  "code \<in> set [HttpRequestNoError, HttpRequestNotGet, HttpRequestFoundDots,
               HttpRequestGetTooBig, HttpRequestSendFailed, HttpRequestRecvNoRoom,
               HttpRequestPeerAbort, HttpRequestExtraRecv]"
  by (cases code) simp_all

lemma ErrorCode_value_enumerators:
  "map ErrorCode_value
     [HttpRequestNoError, HttpRequestNotGet, HttpRequestFoundDots, HttpRequestGetTooBig,
      HttpRequestSendFailed, HttpRequestRecvNoRoom, HttpRequestPeerAbort,
      HttpRequestExtraRecv] = [0, 1, 2, 3, 4, 5, 6, 7]"
  by simp

lemma ErrorCode_value_inj: "ErrorCode_value a = ErrorCode_value b \<longleftrightarrow> a = b"
  by (cases a; cases b) simp_all

lemma one_request_world_simps:
  "length (requests one_request_world) = 1"
  "api_log one_request_world = []"
  "QuicStream (requests one_request_world ! 0) = 7"
  "Shutdown (requests one_request_world ! 0) = False"
  "seen_by_transport one_request_world = []"
  by (simp_all add: one_request_world_def)

text \<open>
  Claim C6. The enumeration has the eight codes \<^verbatim>\<open>NoError\<close>, \<^verbatim>\<open>NotGet\<close>, \<^verbatim>\<open>FoundDots\<close>,
  \<^verbatim>\<open>GetTooBig\<close>, \<^verbatim>\<open>SendFailed\<close>, \<^verbatim>\<open>RecvNoRoom\<close>, \<^verbatim>\<open>PeerAbort\<close> and \<^verbatim>\<open>ExtraRecv\<close>, with
  the values 0 to 7 in this order, so that a value names one code. For each of them,
  \<^verbatim>\<open>Abort\<close> on a request first stores true in the request's \<^verbatim>\<open>Shutdown\<close> flag and then
  makes exactly one call of \<^verbatim>\<open>StreamShutdown\<close>, for the request's stream, with the abort
  flag and the value of that code: the record of calls grows by that one call; at the
  moment of the call the transport finds the flag already true in the request, whatever
  it was before; and nothing else changes.
\<close>

theorem Abort_flag_then_one_StreamShutdown:
  assumes "this < length (requests w)"
  shows "(\<exists>w'. Abort h this code w = Some w' \<and>
               api_log w' =
                 api_log w @
                 [StreamShutdown (QuicStream (requests w ! this))
                    (QUIC_STREAM_SHUTDOWN_FLAG_ABORT h) (ErrorCode_value code)] \<and>
               length (filter is_StreamShutdown (api_log w')) =
                 Suc (length (filter is_StreamShutdown (api_log w))) \<and>
               seen_by_transport w' =
                 seen_by_transport w @
                 [(StreamShutdown (QuicStream (requests w ! this))
                     (QUIC_STREAM_SHUTDOWN_FLAG_ABORT h) (ErrorCode_value code),
                   (requests w ! this)\<lparr>Shutdown := True\<rparr>)] \<and>
               Shutdown (snd (last (seen_by_transport w'))) \<and>
               Shutdown (requests w' ! this) \<and>
               requests w' = (requests w)[this := (requests w ! this)\<lparr>Shutdown := True\<rparr>] \<and>
               connections w' = connections w \<and> unidirectional w' = unidirectional w) \<and>
         code \<in> set [HttpRequestNoError, HttpRequestNotGet, HttpRequestFoundDots,
                      HttpRequestGetTooBig, HttpRequestSendFailed, HttpRequestRecvNoRoom,
                      HttpRequestPeerAbort, HttpRequestExtraRecv] \<and>
         map ErrorCode_value
           [HttpRequestNoError, HttpRequestNotGet, HttpRequestFoundDots, HttpRequestGetTooBig,
            HttpRequestSendFailed, HttpRequestRecvNoRoom, HttpRequestPeerAbort,
            HttpRequestExtraRecv] = [0, 1, 2, 3, 4, 5, 6, 7] \<and>
         (\<forall>other. ErrorCode_value other = ErrorCode_value code \<longrightarrow> other = code)"
proof -
  let ?c = "StreamShutdown (QuicStream (requests w ! this))
              (QUIC_STREAM_SHUTDOWN_FLAG_ABORT h) (ErrorCode_value code)"
  let ?w' = "MsQuic_stream_call this ?c (set_Shutdown this w)"
  have a: "Abort h this code w = Some ?w'" using assms by (rule Abort_Some)
  have req: "requests ?w' = (requests w)[this := (requests w ! this)\<lparr>Shutdown := True\<rparr>]"
    by (simp add: MsQuic_stream_call_simps set_Shutdown_simps)
  have flag: "Shutdown (requests ?w' ! this)"
    using assms by (simp add: req)
  have log: "api_log ?w' = api_log w @ [?c]"
    by (simp add: MsQuic_stream_call_simps set_Shutdown_simps)
  have one: "length (filter is_StreamShutdown (api_log ?w')) =
                 Suc (length (filter is_StreamShutdown (api_log w)))"
    by (simp add: log)
  have seen: "seen_by_transport ?w' =
                seen_by_transport w @ [(?c, (requests w ! this)\<lparr>Shutdown := True\<rparr>)]"
    using assms by (simp add: MsQuic_stream_call_simps set_Shutdown_simps)
  have seen_flag: "Shutdown (snd (last (seen_by_transport ?w')))"
    by (simp add: seen)
  have conn: "connections ?w' = connections w"
    by (simp add: MsQuic_stream_call_simps set_Shutdown_simps)
  have uni: "unidirectional ?w' = unidirectional w"
    by (simp add: MsQuic_stream_call_def MsQuic_call_def set_Shutdown_def)
  have inj: "\<forall>other. ErrorCode_value other = ErrorCode_value code \<longrightarrow> other = code"
    by (simp add: ErrorCode_value_inj)
  from a log one seen seen_flag flag req conn uni
  have "\<exists>w'. Abort h this code w = Some w' \<and>
               api_log w' = api_log w @ [?c] \<and>
               length (filter is_StreamShutdown (api_log w')) =
                 Suc (length (filter is_StreamShutdown (api_log w))) \<and>
               seen_by_transport w' =
                 seen_by_transport w @ [(?c, (requests w ! this)\<lparr>Shutdown := True\<rparr>)] \<and>
               Shutdown (snd (last (seen_by_transport w'))) \<and>
               Shutdown (requests w' ! this) \<and>
               requests w' = (requests w)[this := (requests w ! this)\<lparr>Shutdown := True\<rparr>] \<and>
               connections w' = connections w \<and> unidirectional w' = unidirectional w"
    by blast
  with HttpRequestErrorCodes_all [of code] ErrorCode_value_enumerators inj
  show ?thesis by blast
qed

theorem Abort_flag_then_one_StreamShutdown_witness:
  "0 < length (requests one_request_world) \<and>
   \<not> Shutdown (requests one_request_world ! 0) \<and>
   (\<exists>w'. Abort sample_h 0 HttpRequestFoundDots one_request_world = Some w' \<and>
         Shutdown (requests w' ! 0) \<and> api_log w' = [StreamShutdown 7 6 2] \<and>
         map fst (seen_by_transport w') = [StreamShutdown 7 6 2] \<and>
         map (Shutdown \<circ> snd) (seen_by_transport w') = [True]) \<and>
   (\<exists>w'. Abort sample_h 0 HttpRequestExtraRecv one_request_world = Some w' \<and>
         api_log w' = [StreamShutdown 7 6 7]) \<and>
   ErrorCode_value HttpRequestNotGet \<noteq> ErrorCode_value HttpRequestFoundDots"
proof -
  have len: "0 < length (requests one_request_world)"
    by (simp add: one_request_world_simps)
  have before: "\<not> Shutdown (requests one_request_world ! 0)"
    by (simp add: one_request_world_simps)
  note t = Abort_flag_then_one_StreamShutdown [OF len, of sample_h HttpRequestFoundDots]
  from t obtain w' where a: "Abort sample_h 0 HttpRequestFoundDots one_request_world = Some w'"
    and f: "Shutdown (requests w' ! 0)"
    and l: "api_log w' =
           api_log one_request_world @
           [StreamShutdown (QuicStream (requests one_request_world ! 0))
              (QUIC_STREAM_SHUTDOWN_FLAG_ABORT sample_h) (ErrorCode_value HttpRequestFoundDots)]"
    and v: "seen_by_transport w' =
           seen_by_transport one_request_world @
           [(StreamShutdown (QuicStream (requests one_request_world ! 0))
               (QUIC_STREAM_SHUTDOWN_FLAG_ABORT sample_h) (ErrorCode_value HttpRequestFoundDots),
             (requests one_request_world ! 0)\<lparr>Shutdown := True\<rparr>)]"
    by blast
  have l': "api_log w' = [StreamShutdown 7 6 2]"
    using l by (simp add: one_request_world_simps sample_h_def)
  have v1: "map fst (seen_by_transport w') = [StreamShutdown 7 6 2]"
    using v by (simp add: one_request_world_simps sample_h_def)
  have v2: "map (Shutdown \<circ> snd) (seen_by_transport w') = [True]"
    using v by (simp add: one_request_world_simps)
  from Abort_flag_then_one_StreamShutdown [OF len, of sample_h HttpRequestExtraRecv]
  obtain w'' where a7: "Abort sample_h 0 HttpRequestExtraRecv one_request_world = Some w''"
    and "api_log w'' =
           api_log one_request_world @
           [StreamShutdown (QuicStream (requests one_request_world ! 0))
              (QUIC_STREAM_SHUTDOWN_FLAG_ABORT sample_h) (ErrorCode_value HttpRequestExtraRecv)]"
    by blast
  then have l7: "api_log w'' = [StreamShutdown 7 6 7]"
    by (simp add: one_request_world_simps sample_h_def)
  from t have "\<forall>other. ErrorCode_value other = ErrorCode_value HttpRequestFoundDots
                 \<longrightarrow> other = HttpRequestFoundDots"
    by blast
  from this [rule_format, of HttpRequestNotGet]
  have d: "ErrorCode_value HttpRequestNotGet \<noteq> ErrorCode_value HttpRequestFoundDots"
    by auto
  from a f l' v1 v2
  have e1: "\<exists>w'. Abort sample_h 0 HttpRequestFoundDots one_request_world = Some w' \<and>
         Shutdown (requests w' ! 0) \<and> api_log w' = [StreamShutdown 7 6 2] \<and>
         map fst (seen_by_transport w') = [StreamShutdown 7 6 2] \<and>
         map (Shutdown \<circ> snd) (seen_by_transport w') = [True]"
    by (intro exI [of _ w']) simp
  from a7 l7
  have e2: "\<exists>w'. Abort sample_h 0 HttpRequestExtraRecv one_request_world = Some w' \<and>
         api_log w' = [StreamShutdown 7 6 7]"
    by (intro exI [of _ w'']) simp
  from len before e1 e2 d show ?thesis by (intro conjI)
qed

text \<open>
  Claim C1 says that a second \<^verbatim>\<open>Abort\<close> on a request is a no-op, so that one stream-abort
  request is submitted. It is not: after \<^verbatim>\<open>Abort\<close> twice on one request the record of
  calls holds two \<^verbatim>\<open>StreamShutdown\<close> calls, where one invocation leaves one.
\<close>

theorem Abort_twice_counterexample:
  "map_option api_log (Abort sample_h 0 HttpRequestNotGet one_request_world) =
     Some [StreamShutdown 7 6 1] \<and>
   map_option api_log
     (Option.bind (Abort sample_h 0 HttpRequestNotGet one_request_world)
        (Abort sample_h 0 HttpRequestPeerAbort)) =
     Some [StreamShutdown 7 6 1, StreamShutdown 7 6 6]"
  by (simp add: Abort_def one_request_world_simps MsQuic_stream_call_simps set_Shutdown_simps
      sample_h_def)

text \<open>
  Claim C1, as the code has it. \<^verbatim>\<open>Abort\<close> tests no flag. A second invocation on the same
  request leaves every object as the first one left it (the flag stays true), and it
  submits a stream-abort request of its own: after two invocations exactly two have
  been submitted, with the first and the second error code, in that order.
\<close>

theorem Abort_twice:
  assumes "this < length (requests w)"
  shows "\<exists>w1 w2. Abort h this c1 w = Some w1 \<and> Abort h this c2 w1 = Some w2 \<and>
           Shutdown (requests w1 ! this) \<and>
           requests w2 = requests w1 \<and> connections w2 = connections w1 \<and>
           api_log w1 =
             api_log w @
             [StreamShutdown (QuicStream (requests w ! this))
                (QUIC_STREAM_SHUTDOWN_FLAG_ABORT h) (ErrorCode_value c1)] \<and>
           api_log w2 =
             api_log w1 @
             [StreamShutdown (QuicStream (requests w ! this))
                (QUIC_STREAM_SHUTDOWN_FLAG_ABORT h) (ErrorCode_value c2)]"
proof -
  let ?s = "QuicStream (requests w ! this)"
  let ?f = "QUIC_STREAM_SHUTDOWN_FLAG_ABORT h"
  define w1 where "w1 = MsQuic_stream_call this (StreamShutdown ?s ?f (ErrorCode_value c1))
                          (set_Shutdown this w)"
  define w2 where "w2 = MsQuic_stream_call this
                          (StreamShutdown (QuicStream (requests w1 ! this)) ?f
                             (ErrorCode_value c2)) (set_Shutdown this w1)"
  have r1: "requests w1 = (requests w)[this := (requests w ! this)\<lparr>Shutdown := True\<rparr>]"
    by (simp add: w1_def MsQuic_stream_call_simps set_Shutdown_simps)
  have len1: "this < length (requests w1)" using assms by (simp add: r1)
  have s1: "QuicStream (requests w1 ! this) = ?s" using assms by (simp add: r1)
  have f1: "Shutdown (requests w1 ! this)" using assms by (simp add: r1)
  have a1: "Abort h this c1 w = Some w1" unfolding w1_def using assms by (rule Abort_Some)
  have a2: "Abort h this c2 w1 = Some w2" unfolding w2_def using len1 by (rule Abort_Some)
  have r2: "requests w2 = requests w1"
    using assms by (simp add: w2_def MsQuic_stream_call_simps set_Shutdown_simps r1)
  have c2: "connections w2 = connections w1"
    by (simp add: w2_def MsQuic_stream_call_simps set_Shutdown_simps)
  have l1: "api_log w1 = api_log w @ [StreamShutdown ?s ?f (ErrorCode_value c1)]"
    by (simp add: w1_def MsQuic_stream_call_simps set_Shutdown_simps)
  have l2: "api_log w2 = api_log w1 @ [StreamShutdown ?s ?f (ErrorCode_value c2)]"
    by (simp add: w2_def MsQuic_stream_call_simps set_Shutdown_simps s1)
  from a1 a2 f1 r2 c2 l1 l2 show ?thesis by blast
qed

theorem Abort_twice_witness:
  "0 < length (requests one_request_world) \<and>
   (\<exists>w1 w2. Abort sample_h 0 HttpRequestNotGet one_request_world = Some w1 \<and>
      Abort sample_h 0 HttpRequestPeerAbort w1 = Some w2 \<and>
      requests w2 = requests w1 \<and>
      api_log w2 = [StreamShutdown 7 6 1, StreamShutdown 7 6 6])"
proof -
  have len: "0 < length (requests one_request_world)"
    by (simp add: one_request_world_simps)
  from Abort_twice [OF len, of sample_h HttpRequestNotGet HttpRequestPeerAbort]
  obtain w1 w2 where "Abort sample_h 0 HttpRequestNotGet one_request_world = Some w1"
    and "Abort sample_h 0 HttpRequestPeerAbort w1 = Some w2"
    and "requests w2 = requests w1"
    and "api_log w1 =
           api_log one_request_world @
           [StreamShutdown (QuicStream (requests one_request_world ! 0))
              (QUIC_STREAM_SHUTDOWN_FLAG_ABORT sample_h) (ErrorCode_value HttpRequestNotGet)]"
    and "api_log w2 =
           api_log w1 @
           [StreamShutdown (QuicStream (requests one_request_world ! 0))
              (QUIC_STREAM_SHUTDOWN_FLAG_ABORT sample_h) (ErrorCode_value HttpRequestPeerAbort)]"
    by blast
  then show ?thesis
    using len by (simp add: one_request_world_simps sample_h_def)
qed

section \<open>The connection: reference count and events\<close>

lemma AddRef_live:
  assumes "connections w this = Some c"
  shows "AddRef this w =
           Some (w\<lparr>connections := (connections w)(this \<mapsto> c\<lparr>RefCount := RefCount c + 1\<rparr>)\<rparr>)"
  using assms by (simp add: AddRef_def)

lemma Release_live_last:
  assumes "connections w this = Some c" and "RefCount c = 1"
  shows "Release this w =
           Some (w\<lparr>api_log := api_log w @ [ConnectionClose (QuicConnection c)],
                   connections := (connections w)(this := None)\<rparr>)"
  using assms by (simp add: Release_def HttpConnection_delete_def MsQuic_call_def)

lemma Release_live_more:
  assumes "connections w this = Some c" and "RefCount c \<noteq> 1"
  shows "Release this w =
           Some (w\<lparr>connections := (connections w)(this \<mapsto> c\<lparr>RefCount := RefCount c - 1\<rparr>)\<rparr>)"
  using assms by (simp add: Release_def)

lemma refcount_step_freed:
  "connections w this = None \<Longrightarrow> refcount_step this c w = None"
  by (cases c) (simp_all add: AddRef_def Release_def)

lemma refcount_step_live:
  "connections w this = Some c \<Longrightarrow> \<exists>w'. refcount_step this op w = Some w'"
  by (cases op; cases "RefCount c = 1")
     (simp_all add: AddRef_live Release_live_last Release_live_more)

lemma refcount_run_snoc:
  "refcount_run this (cs @ [c]) w =
     (case refcount_run this cs w of None \<Rightarrow> None | Some w' \<Rightarrow> refcount_step this c w')"
  by (induction cs arbitrary: w) (simp_all split: option.splits)

lemma refcount_run_state:
  fixes w0 :: "'w::len world"
  assumes "connections w0 this = Some \<lparr>QuicConnection = hq, RefCount = 1\<rparr>"
    and "refcount_run this cs w0 = Some w'"
  shows "(case connections w' this of
            Some c \<Rightarrow>
              QuicConnection c = hq \<and>
              RefCount c = 1 + of_nat (count_list cs Call_AddRef) - of_nat (count_list cs Call_Release) \<and>
              api_log w' = api_log w0 \<and>
              (cs \<noteq> [] \<and> last cs = Call_Release \<longrightarrow> RefCount c \<noteq> 0)
          | None \<Rightarrow>
              cs \<noteq> [] \<and> last cs = Call_Release \<and>
              (1 + of_nat (count_list cs Call_AddRef) - of_nat (count_list cs Call_Release) = (0 :: 'w word)) \<and>
              api_log w' = api_log w0 @ [ConnectionClose hq])"
  using assms(2)
proof (induction cs arbitrary: w' rule: rev_induct)
  case Nil
  then show ?case using assms(1) by simp
next
  case (snoc op cs)
  from snoc.prems obtain w1 where run: "refcount_run this cs w0 = Some w1"
    and step: "refcount_step this op w1 = Some w'"
    by (auto simp: refcount_run_snoc split: option.splits)
  from step obtain c where live: "connections w1 this = Some c"
    using refcount_step_freed [of w1 this op] by (cases "connections w1 this") auto
  from snoc.IH [OF run] live
  have q: "QuicConnection c = hq"
    and r: "RefCount c = 1 + of_nat (count_list cs Call_AddRef) - of_nat (count_list cs Call_Release)"
    and l: "api_log w1 = api_log w0"
    by simp_all
  show ?case
  proof (cases op)
    case Call_AddRef
    with step live have "w' = w1\<lparr>connections := (connections w1)(this \<mapsto> c\<lparr>RefCount := RefCount c + 1\<rparr>)\<rparr>"
      by (simp add: AddRef_live)
    with Call_AddRef q r l show ?thesis by simp
  next
    case Call_Release
    show ?thesis
    proof (cases "RefCount c = 1")
      case True
      with step live Call_Release
      have "w' = w1\<lparr>api_log := api_log w1 @ [ConnectionClose (QuicConnection c)],
                     connections := (connections w1)(this := None)\<rparr>"
        by (simp add: Release_live_last)
      with Call_Release q r l True show ?thesis by simp
    next
      case False
      with step live Call_Release
      have "w' = w1\<lparr>connections := (connections w1)(this \<mapsto> c\<lparr>RefCount := RefCount c - 1\<rparr>)\<rparr>"
        by (simp add: Release_live_more)
      with Call_Release q r l False show ?thesis by simp
    qed
  qed
qed


lemma refcount_run_exact:
  fixes w0 :: "'w::len world"
  assumes "connections w0 this = Some \<lparr>QuicConnection = hq, RefCount = 1\<rparr>"
    and "refcount_run this cs w0 = Some w'"
    and "Suc (count_list cs Call_AddRef) < 2 ^ LENGTH('w)"
  shows "(case connections w' this of
            Some c \<Rightarrow>
              unat (RefCount c) + count_list cs Call_Release = Suc (count_list cs Call_AddRef) \<and>
              0 < unat (RefCount c)
          | None \<Rightarrow> count_list cs Call_Release = Suc (count_list cs Call_AddRef))"
  using assms(2,3)
proof (induction cs arbitrary: w' rule: rev_induct)
  case Nil
  then show ?case using assms(1) by simp
next
  case (snoc op cs)
  from snoc.prems(1) obtain w1 where run: "refcount_run this cs w0 = Some w1"
    and step: "refcount_step this op w1 = Some w'"
    by (auto simp: refcount_run_snoc split: option.splits)
  from step obtain c where live: "connections w1 this = Some c"
    using refcount_step_freed [of w1 this op] by (cases "connections w1 this") auto
  from snoc.prems(2) have small: "Suc (count_list cs Call_AddRef) < 2 ^ LENGTH('w)"
    by (simp split: if_splits)
  from snoc.IH [OF run small] live
  have n: "unat (RefCount c) + count_list cs Call_Release = Suc (count_list cs Call_AddRef)"
    and pos: "0 < unat (RefCount c)"
    by simp_all
  show ?case
  proof (cases op)
    case Call_AddRef
    with step live have w': "w' = w1\<lparr>connections := (connections w1)(this \<mapsto> c\<lparr>RefCount := RefCount c + 1\<rparr>)\<rparr>"
      by (simp add: AddRef_live)
    from snoc.prems(2) Call_AddRef n have "unat (RefCount c) + 1 < 2 ^ LENGTH('w)"
      by simp
    then have "unat (RefCount c + 1) = unat (RefCount c) + 1"
      by (simp add: unat_add_lem [THEN iffD1])
    with w' Call_AddRef n show ?thesis by simp
  next
    case Call_Release
    show ?thesis
    proof (cases "RefCount c = 1")
      case True
      with step live Call_Release
      have "w' = w1\<lparr>api_log := api_log w1 @ [ConnectionClose (QuicConnection c)],
                     connections := (connections w1)(this := None)\<rparr>"
        by (simp add: Release_live_last)
      with Call_Release n True show ?thesis by simp
    next
      case False
      with step live Call_Release
      have w': "w' = w1\<lparr>connections := (connections w1)(this \<mapsto> c\<lparr>RefCount := RefCount c - 1\<rparr>)\<rparr>"
        by (simp add: Release_live_more)
      from pos have nz: "RefCount c \<noteq> 0" by (auto simp: unat_eq_zero)
      then have m: "unat (RefCount c - 1) = unat (RefCount c) - 1" by (rule unat_minus_one)
      from False have "unat (RefCount c) \<noteq> 1" by (simp add: word_unat_eq_iff)
      with pos have "1 < unat (RefCount c)" by simp
      with w' Call_Release n m show ?thesis by simp
    qed
  qed
qed

lemma HttpConnection_new_simps:
  "connections (HttpConnection_new this hq w) this = Some \<lparr>QuicConnection = hq, RefCount = 1\<rparr>"
  "api_log (HttpConnection_new this hq w) =
     api_log w @ [SetCallbackHandler hq HttpConnection_QuicCallbackHandler this]"
  "requests (HttpConnection_new this hq w) = requests w"
  "unidirectional (HttpConnection_new this hq w) = unidirectional w"
  by (simp_all add: HttpConnection_new_def MsQuic_call_def)

lemma HttpRequest_new_simps:
  "connections (HttpRequest_new h raw p s u w) = connections w"
  "api_log (HttpRequest_new h raw p s u w) = api_log w"
  "requests (HttpRequest_new h raw p s u w) =
     requests w @
     [\<lparr>Connection = p, QuicStream = s, File = None, Buffer = HttpSendBuffer_new h raw,
       Shutdown = False, WriteHttp11Header = False\<rparr>]"
  "unidirectional (HttpRequest_new h raw p s u w) = (unidirectional w)(length (requests w) := u)"
  by (simp_all add: HttpRequest_new_def)

lemma one_connection_world_simps:
  "connections one_connection_world 5 = Some \<lparr>QuicConnection = 9, RefCount = 1\<rparr>"
  "requests one_connection_world = []"
  "unidirectional one_connection_world a = False"
  "api_log one_connection_world = [SetCallbackHandler 9 HttpConnection_QuicCallbackHandler 5]"
  by (simp_all add: one_connection_world_def empty_world_def HttpConnection_new_simps)

text \<open>
  Claim C2. A connection is constructed with reference count 1. Let any sequence of
  \<^verbatim>\<open>AddRef\<close> and \<^verbatim>\<open>Release\<close> calls have run on it. Then the connection has been destroyed
  exactly when the last call was a \<^verbatim>\<open>Release\<close> whose decrement left the count at zero
  (no earlier call can have destroyed it: a call on a destroyed connection is not
  defined, and every call on a live one is); while it lives, its count is 1 plus the
  number of \<^verbatim>\<open>AddRef\<close> minus the number of \<^verbatim>\<open>Release\<close> calls, in the arithmetic of
  \<^verbatim>\<open>long\<close>, and as long as the count has not wrapped around, destruction happens exactly
  when the \<^verbatim>\<open>Release\<close> calls outnumber the \<^verbatim>\<open>AddRef\<close> calls by one. Destruction closes
  the connection's handle, and the handle is closed by nothing else. The
  shutdown-complete event does a \<^verbatim>\<open>Release\<close>; delivered to a connection just constructed,
  it destroys it.
\<close>

theorem Release_destroys_exactly_at_zero:
  fixes w :: "'w::len world"
  assumes "refcount_run this cs (HttpConnection_new this hq w) = Some w'"
  shows "(connections w' this = None \<longleftrightarrow>
            cs \<noteq> [] \<and> last cs = Call_Release \<and>
            1 + of_nat (count_list cs Call_AddRef) - of_nat (count_list cs Call_Release)
              = (0 :: 'w word)) \<and>
         (\<forall>c. connections w' this = Some c \<longrightarrow>
            QuicConnection c = hq \<and>
            RefCount c =
              1 + of_nat (count_list cs Call_AddRef) - of_nat (count_list cs Call_Release)) \<and>
         api_log w' =
           api_log w @ SetCallbackHandler hq HttpConnection_QuicCallbackHandler this #
           (if connections w' this = None then [ConnectionClose hq] else []) \<and>
         (Suc (count_list cs Call_AddRef) < 2 ^ LENGTH('w) \<longrightarrow>
            (connections w' this = None \<longleftrightarrow>
               count_list cs Call_Release = Suc (count_list cs Call_AddRef))) \<and>
         (refcount_step this op w' = None \<longleftrightarrow> connections w' this = None) \<and>
         QuicCallbackHandler h raw this QUIC_CONNECTION_EVENT_SHUTDOWN_COMPLETE w' =
           map_option (Pair (QUIC_STATUS_SUCCESS h)) (refcount_step this Call_Release w') \<and>
         map_option snd
           (QuicCallbackHandler h raw this QUIC_CONNECTION_EVENT_SHUTDOWN_COMPLETE
              (HttpConnection_new this hq w)) =
           Some (w\<lparr>api_log := api_log w @
                       [SetCallbackHandler hq HttpConnection_QuicCallbackHandler this,
                        ConnectionClose hq],
                   connections := (connections w)(this := None)\<rparr>)"
proof -
  let ?w0 = "HttpConnection_new this hq w"
  have init: "connections ?w0 this = Some \<lparr>QuicConnection = hq, RefCount = (1 :: 'w word)\<rparr>"
    by (rule HttpConnection_new_simps)
  note st = refcount_run_state [OF init assms]
  have destroyed: "connections w' this = None \<longleftrightarrow>
            cs \<noteq> [] \<and> last cs = Call_Release \<and>
            1 + of_nat (count_list cs Call_AddRef) - of_nat (count_list cs Call_Release)
              = (0 :: 'w word)"
    using st by (cases "connections w' this") auto
  have live: "\<forall>c. connections w' this = Some c \<longrightarrow>
            QuicConnection c = hq \<and>
            RefCount c =
              1 + of_nat (count_list cs Call_AddRef) - of_nat (count_list cs Call_Release)"
    using st by auto
  have log: "api_log w' =
           api_log w @ SetCallbackHandler hq HttpConnection_QuicCallbackHandler this #
           (if connections w' this = None then [ConnectionClose hq] else [])"
    using st by (cases "connections w' this") (simp_all add: HttpConnection_new_simps)
  have exact: "Suc (count_list cs Call_AddRef) < 2 ^ LENGTH('w) \<longrightarrow>
            (connections w' this = None \<longleftrightarrow>
               count_list cs Call_Release = Suc (count_list cs Call_AddRef))"
  proof
    assume "Suc (count_list cs Call_AddRef) < 2 ^ LENGTH('w)"
    from refcount_run_exact [OF init assms this]
    show "connections w' this = None \<longleftrightarrow>
            count_list cs Call_Release = Suc (count_list cs Call_AddRef)"
      by (cases "connections w' this") auto
  qed
  have after: "refcount_step this op w' = None \<longleftrightarrow> connections w' this = None"
    using refcount_step_freed [of w' this op] refcount_step_live [of w' this _ op]
    by (cases "connections w' this") auto
  have ev: "QuicCallbackHandler h raw this QUIC_CONNECTION_EVENT_SHUTDOWN_COMPLETE w' =
           map_option (Pair (QUIC_STATUS_SUCCESS h)) (refcount_step this Call_Release w')"
    by simp
  have "Release this ?w0 =
          Some (?w0\<lparr>api_log := api_log ?w0 @ [ConnectionClose hq],
                    connections := (connections ?w0)(this := None)\<rparr>)"
    using Release_live_last [OF init] by simp
  then have fresh: "map_option snd
           (QuicCallbackHandler h raw this QUIC_CONNECTION_EVENT_SHUTDOWN_COMPLETE ?w0) =
           Some (w\<lparr>api_log := api_log w @
                       [SetCallbackHandler hq HttpConnection_QuicCallbackHandler this,
                        ConnectionClose hq],
                   connections := (connections w)(this := None)\<rparr>)"
    by (simp add: HttpConnection_new_def MsQuic_call_def)
  from destroyed live log exact after ev fresh show ?thesis by blast
qed

theorem Release_destroys_exactly_at_zero_witness:
  "Suc (count_list [Call_AddRef, Call_Release, Call_Release] Call_AddRef) < 2 ^ LENGTH(32) \<and>
   count_list [Call_AddRef, Call_Release, Call_Release] Call_Release =
     Suc (count_list [Call_AddRef, Call_Release, Call_Release] Call_AddRef) \<and>
   (\<exists>w'. refcount_run 5 [Call_AddRef, Call_Release, Call_Release]
            (HttpConnection_new 5 9 empty_world) = Some w' \<and>
         connections w' 5 = None \<and>
         api_log w' = [SetCallbackHandler 9 HttpConnection_QuicCallbackHandler 5, ConnectionClose 9] \<and>
         refcount_step 5 Call_Release w' = None) \<and>
   (\<exists>w'. refcount_run 5 [Call_AddRef, Call_Release]
            (HttpConnection_new 5 9 empty_world) = Some w' \<and>
         connections w' 5 = Some \<lparr>QuicConnection = 9, RefCount = 1\<rparr> \<and>
         api_log w' = [SetCallbackHandler 9 HttpConnection_QuicCallbackHandler 5])"
proof -
  let ?w0 = "HttpConnection_new 5 9 empty_world"
  have "\<exists>w'. refcount_run 5 [Call_AddRef, Call_Release, Call_Release] ?w0 = Some w'"
    by (simp add: HttpConnection_new_def MsQuic_call_def AddRef_def Release_def
        HttpConnection_delete_def empty_world_def)
  then obtain w3 where r3: "refcount_run 5 [Call_AddRef, Call_Release, Call_Release] ?w0 = Some w3"
    by blast
  note t3 = Release_destroys_exactly_at_zero [OF r3, of Call_Release sample_h "[]"]
  have d3: "connections w3 5 = None" using t3 by simp
  have l3: "api_log w3 = [SetCallbackHandler 9 HttpConnection_QuicCallbackHandler 5, ConnectionClose 9]"
    using t3 d3 by (simp add: empty_world_def)
  have s3: "refcount_step 5 Call_Release w3 = None" using t3 d3 by blast
  have "\<exists>w'. refcount_run 5 [Call_AddRef, Call_Release] ?w0 = Some w'"
    by (simp add: HttpConnection_new_def MsQuic_call_def AddRef_def Release_def
        HttpConnection_delete_def empty_world_def)
  then obtain w2 where r2: "refcount_run 5 [Call_AddRef, Call_Release] ?w0 = Some w2"
    by blast
  note t2 = Release_destroys_exactly_at_zero [OF r2, of Call_Release sample_h "[]"]
  have d2: "connections w2 5 \<noteq> None" using t2 by simp
  then obtain c where c: "connections w2 5 = Some c" by blast
  with t2 have "QuicConnection c = 9" and "RefCount c = 1" by simp_all
  then have c': "connections w2 5 = Some \<lparr>QuicConnection = 9, RefCount = 1\<rparr>"
    using c by (cases c) simp
  have l2: "api_log w2 = [SetCallbackHandler 9 HttpConnection_QuicCallbackHandler 5]"
    using t2 d2 by (simp add: empty_world_def)
  have "Suc (count_list [Call_AddRef, Call_Release, Call_Release] Call_AddRef) < 2 ^ LENGTH(32)"
    and "count_list [Call_AddRef, Call_Release, Call_Release] Call_Release =
     Suc (count_list [Call_AddRef, Call_Release, Call_Release] Call_AddRef)"
    by simp_all
  with r3 d3 l3 s3 r2 c' l2 show ?thesis by blast
qed

text \<open>
  Claim C5. The peer-stream-started event creates one request and changes no
  connection: the reference count of the connection it is delivered to is the same
  after the event as before, and no call into the transport is made.
\<close>

theorem peer_stream_started_keeps_RefCount:
  fixes w :: "'w::len world"
  shows "\<exists>w'. QuicCallbackHandler h raw pThis
                (QUIC_CONNECTION_EVENT_PEER_STREAM_STARTED Stream StreamFlags) w =
                Some (QUIC_STATUS_SUCCESS h, w') \<and>
              connections w' = connections w \<and>
              map_option RefCount (connections w' pThis) = map_option RefCount (connections w pThis) \<and>
              length (requests w') = Suc (length (requests w)) \<and>
              api_log w' = api_log w"
  by (simp add: HttpRequest_new_simps)

theorem peer_stream_started_keeps_RefCount_witness:
  "\<exists>w'. QuicCallbackHandler sample_h (replicate 65536 0) 5
            (QUIC_CONNECTION_EVENT_PEER_STREAM_STARTED 7 1) one_connection_world = Some (0, w') \<and>
         map_option RefCount (connections w' 5) = Some 1 \<and>
         length (requests w') = 1 \<and>
         api_log w' = [SetCallbackHandler 9 HttpConnection_QuicCallbackHandler 5]"
proof -
  from peer_stream_started_keeps_RefCount
         [of sample_h "replicate 65536 0" 5 7 1 one_connection_world]
  obtain w' where "QuicCallbackHandler sample_h (replicate 65536 0) 5
            (QUIC_CONNECTION_EVENT_PEER_STREAM_STARTED 7 1) one_connection_world =
            Some (QUIC_STATUS_SUCCESS sample_h, w')"
    and "map_option RefCount (connections w' 5) =
           map_option RefCount (connections one_connection_world 5)"
    and "length (requests w') = Suc (length (requests one_connection_world))"
    and "api_log w' = api_log one_connection_world"
    by blast
  then show ?thesis
    by (simp add: one_connection_world_simps sample_h_def)
qed

text \<open>
  Claim C9. The peer-stream-started event creates exactly one request, bound to the
  stream of the event and to the connection the event was delivered to; the request is
  unidirectional exactly when the stream's open flags have the unidirectional flag set.
  The connected event creates no request: it sends the resumption ticket (final flag, no
  data) on the connection's handle.
\<close>

theorem peer_stream_started_creates_one_request:
  fixes w :: "'w::len world"
  shows "(\<exists>r w'. QuicCallbackHandler h raw pThis
                (QUIC_CONNECTION_EVENT_PEER_STREAM_STARTED Stream StreamFlags) w =
                Some (QUIC_STATUS_SUCCESS h, w') \<and>
              requests w' = requests w @ [r] \<and>
              Connection r = pThis \<and> QuicStream r = Stream \<and>
              (unidirectional w' (length (requests w)) \<longleftrightarrow>
                 StreamFlags AND QUIC_STREAM_OPEN_FLAG_UNIDIRECTIONAL h \<noteq> 0) \<and>
              (\<forall>k. QUIC_STREAM_OPEN_FLAG_UNIDIRECTIONAL h = 2 ^ k \<longrightarrow>
                 (unidirectional w' (length (requests w)) \<longleftrightarrow> bit StreamFlags k)) \<and>
              (\<forall>a. a \<noteq> length (requests w) \<longrightarrow> unidirectional w' a = unidirectional w a) \<and>
              connections w' = connections w \<and> api_log w' = api_log w) \<and>
         (\<forall>c. connections w pThis = Some c \<longrightarrow>
            QuicCallbackHandler h raw pThis QUIC_CONNECTION_EVENT_CONNECTED w =
              Some (QUIC_STATUS_SUCCESS h,
                    w\<lparr>api_log := api_log w @
                         [ConnectionSendResumptionTicket (QuicConnection c)
                            (QUIC_SEND_RESUMPTION_FLAG_FINAL h) 0 None]\<rparr>))"
proof -
  let ?u = "StreamFlags AND QUIC_STREAM_OPEN_FLAG_UNIDIRECTIONAL h \<noteq> 0"
  let ?r = "\<lparr>Connection = pThis, QuicStream = Stream, File = None,
             Buffer = HttpSendBuffer_new h raw, Shutdown = False, WriteHttp11Header = False\<rparr>"
  let ?w' = "HttpRequest_new h raw pThis Stream ?u w"
  have run: "QuicCallbackHandler h raw pThis
                (QUIC_CONNECTION_EVENT_PEER_STREAM_STARTED Stream StreamFlags) w =
                Some (QUIC_STATUS_SUCCESS h, ?w')"
    by simp
  have req: "requests ?w' = requests w @ [?r]" by (simp add: HttpRequest_new_simps)
  have uni: "unidirectional ?w' (length (requests w)) \<longleftrightarrow> ?u"
    by (simp add: HttpRequest_new_simps)
  have bits: "\<forall>k. QUIC_STREAM_OPEN_FLAG_UNIDIRECTIONAL h = 2 ^ k \<longrightarrow>
                 (unidirectional ?w' (length (requests w)) \<longleftrightarrow> bit StreamFlags k)"
  proof (intro allI impI)
    fix k
    assume e: "QUIC_STREAM_OPEN_FLAG_UNIDIRECTIONAL h = 2 ^ k"
    have "StreamFlags AND 2 ^ k \<noteq> 0 \<longleftrightarrow> bit StreamFlags k"
      by (simp add: and_exp_eq_0_iff_not_bit)
    with e uni show "unidirectional ?w' (length (requests w)) \<longleftrightarrow> bit StreamFlags k"
      by simp
  qed
  have others: "\<forall>a. a \<noteq> length (requests w) \<longrightarrow> unidirectional ?w' a = unidirectional w a"
    by (simp add: HttpRequest_new_simps)
  have frame: "connections ?w' = connections w" "api_log ?w' = api_log w"
    by (simp_all add: HttpRequest_new_simps)
  have conn: "\<forall>c. connections w pThis = Some c \<longrightarrow>
            QuicCallbackHandler h raw pThis QUIC_CONNECTION_EVENT_CONNECTED w =
              Some (QUIC_STATUS_SUCCESS h,
                    w\<lparr>api_log := api_log w @
                         [ConnectionSendResumptionTicket (QuicConnection c)
                            (QUIC_SEND_RESUMPTION_FLAG_FINAL h) 0 None]\<rparr>)"
    by (simp add: MsQuic_call_def)
  have "Connection ?r = pThis \<and> QuicStream ?r = Stream" by simp
  with run req uni bits others frame conn show ?thesis by blast
qed

theorem peer_stream_started_creates_one_request_witness:
  "QUIC_STREAM_OPEN_FLAG_UNIDIRECTIONAL sample_h = 2 ^ 0 \<and>
   connections one_connection_world 5 = Some \<lparr>QuicConnection = 9, RefCount = 1\<rparr> \<and>
   (\<exists>r w'. QuicCallbackHandler sample_h (replicate 65536 0) 5
            (QUIC_CONNECTION_EVENT_PEER_STREAM_STARTED 7 3) one_connection_world =
            Some (0, w') \<and>
         requests w' = [r] \<and> Connection r = 5 \<and> QuicStream r = 7 \<and>
         unidirectional w' 0 \<and> \<not> unidirectional w' 1) \<and>
   (\<exists>r w'. QuicCallbackHandler sample_h (replicate 65536 0) 5
            (QUIC_CONNECTION_EVENT_PEER_STREAM_STARTED 8 2) one_connection_world =
            Some (0, w') \<and>
         requests w' = [r] \<and> Connection r = 5 \<and> QuicStream r = 8 \<and> \<not> unidirectional w' 0) \<and>
   QuicCallbackHandler sample_h (replicate 65536 0) 5
     QUIC_CONNECTION_EVENT_CONNECTED one_connection_world =
     Some (0, one_connection_world
                \<lparr>api_log := [SetCallbackHandler 9 HttpConnection_QuicCallbackHandler 5,
                              ConnectionSendResumptionTicket 9 1 0 None]\<rparr>)"
proof -
  have flag: "QUIC_STREAM_OPEN_FLAG_UNIDIRECTIONAL sample_h = 2 ^ 0"
    by (simp add: sample_h_def)
  have live: "connections one_connection_world 5 = Some \<lparr>QuicConnection = 9, RefCount = 1\<rparr>"
    by (simp add: one_connection_world_simps)
  note t3 = peer_stream_started_creates_one_request
              [of sample_h "replicate 65536 0" 5 7 3 one_connection_world]
  note t2 = peer_stream_started_creates_one_request
              [of sample_h "replicate 65536 0" 5 8 2 one_connection_world]
  from t3 obtain r3 w3 where a3: "QuicCallbackHandler sample_h (replicate 65536 0) 5
            (QUIC_CONNECTION_EVENT_PEER_STREAM_STARTED 7 3) one_connection_world =
            Some (QUIC_STATUS_SUCCESS sample_h, w3)"
    and q3: "requests w3 = requests one_connection_world @ [r3]"
    and b3: "Connection r3 = 5" "QuicStream r3 = 7"
    and c3: "\<forall>k. QUIC_STREAM_OPEN_FLAG_UNIDIRECTIONAL sample_h = 2 ^ k \<longrightarrow>
                 (unidirectional w3 (length (requests one_connection_world))
                    \<longleftrightarrow> bit (3 :: 32 word) k)"
    and o3: "\<forall>a. a \<noteq> length (requests one_connection_world) \<longrightarrow>
                 unidirectional w3 a = unidirectional one_connection_world a"
    by blast
  from o3 [rule_format, of 1] have n3: "\<not> unidirectional w3 1"
    by (simp add: one_connection_world_simps)
  from c3 flag
  have "unidirectional w3 (length (requests one_connection_world)) \<longleftrightarrow> bit (3 :: 32 word) 0"
    by blast
  then have u3: "unidirectional w3 0" by (simp add: one_connection_world_simps)
  from t2 obtain r2 w2 where a2: "QuicCallbackHandler sample_h (replicate 65536 0) 5
            (QUIC_CONNECTION_EVENT_PEER_STREAM_STARTED 8 2) one_connection_world =
            Some (QUIC_STATUS_SUCCESS sample_h, w2)"
    and q2: "requests w2 = requests one_connection_world @ [r2]"
    and b2: "Connection r2 = 5" "QuicStream r2 = 8"
    and c2: "\<forall>k. QUIC_STREAM_OPEN_FLAG_UNIDIRECTIONAL sample_h = 2 ^ k \<longrightarrow>
                 (unidirectional w2 (length (requests one_connection_world))
                    \<longleftrightarrow> bit (2 :: 32 word) k)"
    by blast
  from c2 flag
  have "unidirectional w2 (length (requests one_connection_world)) \<longleftrightarrow> bit (2 :: 32 word) 0"
    by blast
  then have u2: "\<not> unidirectional w2 0" by (simp add: one_connection_world_simps)
  from t3 live
  have "QuicCallbackHandler sample_h (replicate 65536 0) 5
          QUIC_CONNECTION_EVENT_CONNECTED one_connection_world =
          Some (QUIC_STATUS_SUCCESS sample_h,
                one_connection_world
                  \<lparr>api_log := api_log one_connection_world @
                     [ConnectionSendResumptionTicket
                        (QuicConnection \<lparr>QuicConnection = 9, RefCount = (1 :: 32 word)\<rparr>)
                        (QUIC_SEND_RESUMPTION_FLAG_FINAL sample_h) 0 None]\<rparr>)"
    by blast
  then have con: "QuicCallbackHandler sample_h (replicate 65536 0) 5
     QUIC_CONNECTION_EVENT_CONNECTED one_connection_world =
     Some (0, one_connection_world
                \<lparr>api_log := [SetCallbackHandler 9 HttpConnection_QuicCallbackHandler 5,
                              ConnectionSendResumptionTicket 9 1 0 None]\<rparr>)"
    by (simp add: one_connection_world_simps sample_h_def)
  have a3': "QuicCallbackHandler sample_h (replicate 65536 0) 5
            (QUIC_CONNECTION_EVENT_PEER_STREAM_STARTED 7 3) one_connection_world = Some (0, w3)"
    using a3 by (simp add: sample_h_def)
  have a2': "QuicCallbackHandler sample_h (replicate 65536 0) 5
            (QUIC_CONNECTION_EVENT_PEER_STREAM_STARTED 8 2) one_connection_world = Some (0, w2)"
    using a2 by (simp add: sample_h_def)
  have q3': "requests w3 = [r3]" using q3 by (simp add: one_connection_world_simps)
  have q2': "requests w2 = [r2]" using q2 by (simp add: one_connection_world_simps)
  from flag live a3' q3' b3 u3 n3 a2' q2' b2 u2 con show ?thesis by blast
qed

section \<open>Startup\<close>

lemma HttpServer_new_cases:
  fixes T :: transport
  defines "c4 \<equiv> \<lambda>s this. ListenerOpen s HttpServer_QuicCallbackHandler this"
  shows "HttpServer_new h T this s addr log =
     (let l = snd (T log (c4 s this)); c5 = ListenerStart l addr in
      if QUIC_FAILED h (fst (T log (c4 s this)))
      then (Inl \<lparr>printed = startup_diagnostics h ! 3, exit_status = 1\<rparr>, log @ [c4 s this])
      else if QUIC_FAILED h (fst (T (log @ [c4 s this]) c5))
      then (Inl \<lparr>printed = startup_diagnostics h ! 4, exit_status = 1\<rparr>, log @ [c4 s this, c5])
      else (Inr \<lparr>QuicListener = l\<rparr>, log @ [c4 s this, c5]))"
  by (simp add: HttpServer_new_def EXIT_ON_FAILURE_def transport_call_def
      startup_diagnostics_def c4_def Let_def)

lemma HttpSession_new_cases:
  "HttpSession_new h T server Registration AlpnBuffers AlpnBufferCount LocalAddress log =
     (let cs = startup_calls h T server Registration AlpnBuffers AlpnBufferCount LocalAddress log;
          f = (\<lambda>k. QUIC_FAILED h (status_of T log cs k));
          e = (\<lambda>k. Inl \<lparr>printed = startup_diagnostics h ! k, exit_status = 1\<rparr>)
      in if f 0 then (e 0, log @ take 1 cs)
         else if f 1 then (e 1, log @ take 2 cs)
         else if f 2 then (e 2, log @ take 3 cs)
         else if f 3 then (e 3, log @ take 4 cs)
         else if f 4 then (e 4, log @ take 5 cs)
         else (Inr (\<lparr>Session = snd (T log (cs ! 0)), Server = server\<rparr>,
                    \<lparr>QuicListener = snd (T (log @ take 3 cs) (cs ! 3))\<rparr>), log @ cs))"
  unfolding HttpSession_new_def HttpServer_new_cases
  by (simp add: EXIT_ON_FAILURE_def transport_call_def startup_calls_def
      status_of_def Let_def MAX_HTTP_REQUESTS_PER_CONNECTION_def)
     (simp add: startup_diagnostics_def)


lemma less_5_cases: "k < (5::nat) \<Longrightarrow> k = 0 \<or> k = 1 \<or> k = 2 \<or> k = 3 \<or> k = 4"
  by arith



text \<open>
  Claim C8. The five startup operations are, in order: session open, the two
  stream-count settings, listener open, listener start. If the \<open>k\<close>-th of them is the
  first to return a failure status, the construction ends the process with exit status
  1 after printing the diagnostic of that operation (the file, the line of the
  operation's \<^verbatim>\<open>EXIT_ON_FAILURE\<close> invocation, and the operation's text, which no other
  operation shares), and the calls made are the operations up to and including the
  failing one, each once: nothing after it is executed, and nothing is retried.
\<close>

theorem startup_failure_exits:
  assumes "k < 5"
    and "\<forall>j<k. \<not> QUIC_FAILED h
           (status_of T log
              (startup_calls h T server Registration AlpnBuffers AlpnBufferCount LocalAddress log) j)"
    and "QUIC_FAILED h
           (status_of T log
              (startup_calls h T server Registration AlpnBuffers AlpnBufferCount LocalAddress log) k)"
  shows "HttpSession_new h T server Registration AlpnBuffers AlpnBufferCount LocalAddress log =
           (Inl \<lparr>printed = startup_diagnostics h ! k, exit_status = 1\<rparr>,
            log @ take (Suc k)
                    (startup_calls h T server Registration AlpnBuffers AlpnBufferCount
                       LocalAddress log)) \<and>
         diag_file (startup_diagnostics h ! k) = FILE_macro h \<and>
         diag_line (startup_diagnostics h ! k) =
           LINE_macro h ([211, 222, 229, 170, 176] ! k) ([217, 228, 235, 175, 179] ! k) \<and>
         (\<forall>j<5. diag_expr (startup_diagnostics h ! j) = diag_expr (startup_diagnostics h ! k)
                   \<longrightarrow> j = k)"
proof -
  let ?cs = "startup_calls h T server Registration AlpnBuffers AlpnBufferCount LocalAddress log"
  let ?f = "\<lambda>j. QUIC_FAILED h (status_of T log ?cs j)"
  from assms(1) have k: "k = 0 \<or> k = 1 \<or> k = 2 \<or> k = 3 \<or> k = 4" by (rule less_5_cases)
  have run: "HttpSession_new h T server Registration AlpnBuffers AlpnBufferCount LocalAddress log =
           (Inl \<lparr>printed = startup_diagnostics h ! k, exit_status = 1\<rparr>, log @ take (Suc k) ?cs)"
  proof -
    consider "k = 0" | "k = 1" | "k = 2" | "k = 3" | "k = 4" using k by blast
    then show ?thesis
    proof cases
      case 1
      with assms(3) have "?f 0" by simp
      with 1 show ?thesis by (simp add: HttpSession_new_cases Let_def)
    next
      case 2
      with assms(2,3) have "\<not> ?f 0" "?f 1" by simp_all
      with 2 show ?thesis by (simp add: HttpSession_new_cases Let_def numeral_2_eq_2)
    next
      case 3
      with assms(2,3) have "\<not> ?f 0" "\<not> ?f 1" "?f 2" by simp_all
      with 3 show ?thesis by (simp add: HttpSession_new_cases Let_def numeral_3_eq_3)
    next
      case 4
      with assms(2,3) have "\<not> ?f 0" "\<not> ?f 1" "\<not> ?f 2" "?f 3" by simp_all
      moreover have "Suc 3 = 4" by simp
      ultimately show ?thesis using 4 by (simp add: HttpSession_new_cases Let_def)
    next
      case 5
      with assms(2,3) have "\<not> ?f 0" "\<not> ?f 1" "\<not> ?f 2" "\<not> ?f 3" "?f 4" by simp_all
      moreover have "Suc 4 = 5" by simp
      ultimately show ?thesis using 5 by (simp add: HttpSession_new_cases Let_def)
    qed
  qed
  have fl: "diag_file (startup_diagnostics h ! k) = FILE_macro h"
    using k by (auto simp: startup_diagnostics_def)
  have ln: "diag_line (startup_diagnostics h ! k) =
           LINE_macro h ([211, 222, 229, 170, 176] ! k) ([217, 228, 235, 175, 179] ! k)"
    using k by (auto simp: startup_diagnostics_def)
  have ex: "\<forall>j<5. diag_expr (startup_diagnostics h ! j) = diag_expr (startup_diagnostics h ! k)
                   \<longrightarrow> j = k"
  proof (intro allI impI)
    fix j :: nat
    assume "j < 5"
    then have j: "j = 0 \<or> j = 1 \<or> j = 2 \<or> j = 3 \<or> j = 4" by (rule less_5_cases)
    assume "diag_expr (startup_diagnostics h ! j) = diag_expr (startup_diagnostics h ! k)"
    with j k show "j = k" by (auto simp: startup_diagnostics_def)
  qed
  from run fl ln ex show ?thesis by blast
qed

theorem startup_failure_exits_witness:
  "(2 :: nat) < 5 \<and>
   \<not> QUIC_FAILED sample_h
       (status_of (failing_transport 2) []
          (startup_calls sample_h (failing_transport 2) 40 3 [[104, 113]] 1 4433 []) 0) \<and>
   \<not> QUIC_FAILED sample_h
       (status_of (failing_transport 2) []
          (startup_calls sample_h (failing_transport 2) 40 3 [[104, 113]] 1 4433 []) 1) \<and>
   QUIC_FAILED sample_h
     (status_of (failing_transport 2) []
        (startup_calls sample_h (failing_transport 2) 40 3 [[104, 113]] 1 4433 []) 2) \<and>
   HttpSession_new sample_h (failing_transport 2) 40 3 [[104, 113]] 1 4433 [] =
     (Inl \<lparr>printed =
             \<lparr>diag_file = ''InteropServer.h'', diag_line = 229,
              diag_expr = ''MsQuic->SetParam( Session, QUIC_PARAM_LEVEL_SESSION, QUIC_PARAM_SESSION_PEER_UNIDI_STREAM_COUNT, sizeof(PeerUnidiStreamCount), &PeerUnidiStreamCount)''\<rparr>,
           exit_status = 1\<rparr>,
      [SessionOpen 3 [[104, 113]] 1 None, SetParam 11 2 1 2 100, SetParam 11 2 2 2 1]) \<and>
   diag_expr (startup_diagnostics sample_h ! 1) \<noteq> diag_expr (startup_diagnostics sample_h ! 2)"
proof -
  let ?cs = "startup_calls sample_h (failing_transport 2) 40 3 [[104, 113]] 1 4433 []"
  let ?st = "status_of (failing_transport 2) [] ?cs"
  have cs: "?cs = [SessionOpen 3 [[104, 113]] 1 None, SetParam 11 2 1 2 100,
                   SetParam 11 2 2 2 1, ListenerOpen 11 HttpServer_QuicCallbackHandler 40,
                   ListenerStart 14 4433]"
    by (simp add: startup_calls_def failing_transport_def sample_h_def Let_def)
  have s0: "\<not> QUIC_FAILED sample_h (?st 0)"
    and s1: "\<not> QUIC_FAILED sample_h (?st 1)"
    and s2: "QUIC_FAILED sample_h (?st 2)"
    unfolding cs by (simp_all add: status_of_def failing_transport_def sample_h_def)
  have before: "\<forall>j<2. \<not> QUIC_FAILED sample_h (?st j)"
  proof (intro allI impI)
    fix j :: nat
    assume "j < 2"
    then have "j = 0 \<or> j = 1" by arith
    with s0 s1 show "\<not> QUIC_FAILED sample_h (?st j)" by blast
  qed
  have k: "(2 :: nat) < 5" by simp
  note t = startup_failure_exits [OF k before s2]
  from t have "\<forall>j<5. diag_expr (startup_diagnostics sample_h ! j) =
                  diag_expr (startup_diagnostics sample_h ! 2) \<longrightarrow> j = 2"
    by blast
  from this [rule_format, of 1]
  have other: "diag_expr (startup_diagnostics sample_h ! 1) \<noteq>
               diag_expr (startup_diagnostics sample_h ! 2)"
    by auto
  from t
  have "HttpSession_new sample_h (failing_transport 2) 40 3 [[104, 113]] 1 4433 [] =
          (Inl \<lparr>printed = startup_diagnostics sample_h ! 2, exit_status = 1\<rparr>,
           [] @ take (Suc 2) ?cs)"
    by blast
  then have "HttpSession_new sample_h (failing_transport 2) 40 3 [[104, 113]] 1 4433 [] =
     (Inl \<lparr>printed =
             \<lparr>diag_file = ''InteropServer.h'', diag_line = 229,
              diag_expr = ''MsQuic->SetParam( Session, QUIC_PARAM_LEVEL_SESSION, QUIC_PARAM_SESSION_PEER_UNIDI_STREAM_COUNT, sizeof(PeerUnidiStreamCount), &PeerUnidiStreamCount)''\<rparr>,
           exit_status = 1\<rparr>,
      [SessionOpen 3 [[104, 113]] 1 None, SetParam 11 2 1 2 100, SetParam 11 2 2 2 1])"
    unfolding cs by (simp add: startup_diagnostics_def sample_h_def)
  with k s0 s1 s2 other show ?thesis by blast
qed

end
